theory Spec2Isabelle
  imports Main "HOL-Library.Multiset"
begin

section \<open>Configuration (sftp\_config.py)\<close>

text \<open>
  \<^verbatim>\<open>SFTPConfig\<close> is a plain object of fourteen attributes. The numeric attributes are
  Python integers (the setters apply \<^verbatim>\<open>int\<close>); \<^verbatim>\<open>keep_alive_enabled\<close> is an integer read
  for its truth value, so every value other than 0 enables keep-alive.
\<close>

record SFTPConfig =
  host :: "string option"
  username :: "string option"
  root_dir :: string
  ssh_private_key_passphrase :: "string option"
  ssh_private_key_path :: "string option"
  min_test_file_size_bytes :: int
  max_test_file_size_bytes :: int
  num_test_files :: int
  connect_timeout_seconds :: int
  transfer_timeout_seconds :: int
  sftp_threads :: int
  sftp_sleep_interval :: int
  keep_alive_enabled :: int
  retry_attempts :: int

text \<open>\<^verbatim>\<open>SFTPConfig.__init__\<close>: the defaults.\<close>

definition SFTPConfig_init :: SFTPConfig where
  "SFTPConfig_init =
     \<lparr> host = None, username = None, root_dir = ''/'',
       ssh_private_key_passphrase = None, ssh_private_key_path = None,
       min_test_file_size_bytes = 6000, max_test_file_size_bytes = 64000000,
       num_test_files = 1, connect_timeout_seconds = 20, transfer_timeout_seconds = 20,
       sftp_threads = 1, sftp_sleep_interval = - 1, keep_alive_enabled = 0,
       retry_attempts = 0 \<rparr>"

section \<open>Results (sftp\_tester.py, FileStat and TestReport)\<close>

text \<open>
  \<^verbatim>\<open>FileStat\<close>; the field \<^verbatim>\<open>size\<close> is called \<open>size_bytes\<close> here. Times are readings of a
  logical clock in seconds; floating-point rounding is not modelled.
  A \<^verbatim>\<open>TestReport\<close> is the list \<^verbatim>\<open>file_stats\<close>, and \<^verbatim>\<open>add\<close> appends to it.
\<close>

record FileStat =
  name :: string
  size_bytes :: int
  connect_time :: int
  transfer_time :: int
  success :: bool
  error :: "string option"

type_synonym TestReport = "FileStat list"

definition add :: "TestReport \<Rightarrow> FileStat \<Rightarrow> TestReport" where
  "add report stat = report @ [stat]"

section \<open>Exceptions and the outside world\<close>

text \<open>
  An exception is recorded with the call that raised it and its message (\<^verbatim>\<open>str(e)\<close>).
\<close>

datatype site =
    Mkdtemp | Randint | CreateZip | Getsize | CpuCount | Executor
  | Connect | OpenSftp | Put | Remove | Rmdir

datatype exn = Raised site string

fun str_exn :: "exn \<Rightarrow> string" where
  "str_exn (Raised _ msg) = msg"

text \<open>
  What \<^verbatim>\<open>create_random_zip\<close> can meet: the archive is written; or an exception is raised
  before the random bytes are drawn (\<^verbatim>\<open>TemporaryDirectory\<close>, opening \<^verbatim>\<open>data.bin\<close>); or
  after they are drawn and before the destination exists (writing \<^verbatim>\<open>data.bin\<close>, opening
  the destination); or while the archive is being written, after
  \<^verbatim>\<open>zipfile.ZipFile(destination, "w")\<close> has created the destination file, which then stays
  on disk with the given size.
\<close>

datatype write_result =
    Written | ScratchFailed string | DataFailed string | ArchiveFailed string int

text \<open>
  Everything the program does not decide itself is read from a \<open>world\<close>: what each
  library call returns or raises (\<open>None\<close>: it returns; \<open>Some msg\<close>: it raises an
  exception with that message) and how long it blocks. Connects are numbered by the
  client they create, the calls of one transfer by the artifact's submission index.
\<close>

record world =
  mkdtemp_result :: "string + string"
  cpu_count :: "nat option"
  random_bits :: "nat \<Rightarrow> nat"
  zip_result :: "string \<Rightarrow> write_result"
  stream_len :: "string \<Rightarrow> nat"
  connect_raises :: "nat \<Rightarrow> string option"
  connect_dur :: "nat \<Rightarrow> nat"
  open_sftp_raises :: "nat \<Rightarrow> string option"
  put_raises :: "nat \<Rightarrow> string option"
  put_dur :: "nat \<Rightarrow> nat"
  remove_raises :: "nat \<Rightarrow> string option"
  remove_dur :: "nat \<Rightarrow> nat"
  completion :: "nat \<Rightarrow> nat"

text \<open>The calls made on the outside world, in the order they are made.\<close>

datatype event =
    EvUrandom int
  | EvConnect nat "int option" bool
  | EvOpenSftp nat bool
  | EvPut nat string string bool
  | EvRemove nat string bool
  | EvSftpClose nat
  | EvClientClose nat
  | EvSleep int

text \<open>
  The state a run threads through: the monotonic clock, the files of the scratch
  directory with their sizes (newest first), the calls made so far, and the number of
  SSH clients created so far.
\<close>

record state =
  clock :: int
  files :: "(string \<times> int) list"
  trace :: "event list"
  clients :: nat

definition initial :: state where
  "initial = \<lparr> clock = 0, files = [], trace = [], clients = 0 \<rparr>"

definition log :: "event \<Rightarrow> state \<Rightarrow> state" where
  "log e s = s\<lparr> trace := trace s @ [e] \<rparr>"

definition tick :: "nat \<Rightarrow> state \<Rightarrow> state" where
  "tick d s = s\<lparr> clock := clock s + int d \<rparr>"

definition exists_path :: "state \<Rightarrow> string \<Rightarrow> bool" where
  "exists_path s p = (map_of (files s) p \<noteq> None)"

definition getsize :: "state \<Rightarrow> string \<Rightarrow> int option" where
  "getsize s p = map_of (files s) p"

definition write_file :: "string \<Rightarrow> int \<Rightarrow> state \<Rightarrow> state" where
  "write_file p n s = s\<lparr> files := (p, n) # filter (\<lambda>e. fst e \<noteq> p) (files s) \<rparr>"

definition remove_file :: "string \<Rightarrow> state \<Rightarrow> state" where
  "remove_file p s = s\<lparr> files := filter (\<lambda>e. fst e \<noteq> p) (files s) \<rparr>"

section \<open>Library functions the program calls\<close>

text \<open>\<^verbatim>\<open>str(i)\<close> for a natural number: its decimal digits.\<close>

definition digit_char :: "nat \<Rightarrow> char" where
  "digit_char d = ''0123456789'' ! d"

fun str_nat :: "nat \<Rightarrow> string" where
  "str_nat n = (if n < 10 then [digit_char n] else str_nat (n div 10) @ [digit_char (n mod 10)])"

declare str_nat.simps [simp del]

text \<open>\<^verbatim>\<open>os.path.join\<close> of two components (POSIX).\<close>

definition path_join :: "string \<Rightarrow> string \<Rightarrow> string" where
  "path_join a b =
     (if b \<noteq> [] \<and> hd b = CHR ''/'' then b
      else if a = [] \<or> last a = CHR ''/'' then a @ b
      else a @ ''/'' @ b)"

text \<open>
  \<^verbatim>\<open>random.randint(a, b)\<close>: raises \<^verbatim>\<open>ValueError\<close> on an empty range, and otherwise returns
  \<open>a\<close> plus a number below \<open>b - a + 1\<close>, taken from \<open>r\<close>, the generator's raw output for
  this draw (the world's \<open>random_bits\<close>, one per artifact).
\<close>

definition randint :: "nat \<Rightarrow> int \<Rightarrow> int \<Rightarrow> exn + int" where
  "randint r a b =
     (if a > b then Inl (Raised Randint ''empty range for randrange()'')
      else Inr (a + int (r mod nat (b - a + 1))))"

text \<open>
  The size of a ZIP archive holding the one member \<^verbatim>\<open>data.bin\<close>: a local file header
  (30 bytes and the name), the member's compressed stream, a central directory entry
  (46 bytes and the name) and the end-of-central-directory record (22 bytes). The length
  of the stream depends on the random bytes and is read from the world (with the ZIP64
  fields, for a member that needs them).
\<close>

definition zip_overhead :: int where
  "zip_overhead = 30 + int (length ''data.bin'') + 46 + int (length ''data.bin'') + 22"

definition archive_size :: "world \<Rightarrow> string \<Rightarrow> int" where
  "archive_size w destination = zip_overhead + int (stream_len w destination)"

text \<open>
  \<^verbatim>\<open>as_completed(futures)\<close> yields every future once, in the order the futures finish;
  the world's \<open>completion\<close> picks which of the futures not yet yielded comes next.
\<close>

function as_completed :: "(nat \<Rightarrow> nat) \<Rightarrow> nat \<Rightarrow> 'a list \<Rightarrow> 'a list" where
  "as_completed pick k xs =
     (if xs = [] then []
      else let i = pick k mod length xs
           in xs ! i # as_completed pick (Suc k) (take i xs @ drop (Suc i) xs))"
  by pat_completeness auto
termination
proof (relation "measure (\<lambda>(pick, k, xs). length xs)")
  show "wf (measure (\<lambda>(pick :: nat \<Rightarrow> nat, k :: nat, xs :: 'a list). length xs))"
    by simp
next
  fix pick :: "nat \<Rightarrow> nat" and k :: nat and xs :: "'a list" and i :: nat
  assume "xs \<noteq> []" and "i = pick k mod length xs"
  then have "i < length xs"
    by simp
  then show "((pick, Suc k, take i xs @ drop (Suc i) xs), (pick, k, xs))
               \<in> measure (\<lambda>(pick, k, xs). length xs)"
    by simp
qed

declare as_completed.simps [simp del]

section \<open>sftp\_tester.py\<close>

text \<open>
  \<^verbatim>\<open>create_random_zip(destination, size)\<close>. \<^verbatim>\<open>os.urandom\<close> raises \<^verbatim>\<open>ValueError\<close> on a
  negative size, before the destination is opened.
\<close>

definition create_random_zip :: "world \<Rightarrow> string \<Rightarrow> int \<Rightarrow> state \<Rightarrow> exn option \<times> state" where
  "create_random_zip w destination sz s =
     (case zip_result w destination of
        ScratchFailed msg \<Rightarrow> (Some (Raised CreateZip msg), s)
      | DataFailed msg \<Rightarrow>
          if sz < 0 then (Some (Raised CreateZip ''negative argument not allowed''), s)
          else (Some (Raised CreateZip msg), log (EvUrandom sz) s)
      | ArchiveFailed msg partial \<Rightarrow>
          if sz < 0 then (Some (Raised CreateZip ''negative argument not allowed''), s)
          else (Some (Raised CreateZip msg), write_file destination partial (log (EvUrandom sz) s))
      | Written \<Rightarrow>
          if sz < 0 then (Some (Raised CreateZip ''negative argument not allowed''), s)
          else (None, write_file destination (archive_size w destination) (log (EvUrandom sz) s)))"

text \<open>
  \<^verbatim>\<open>_create_client(config)\<close>: one \<^verbatim>\<open>client.connect\<close>, with the timeout argument the source
  computes. The result is the new client, or the exception \<^verbatim>\<open>connect\<close> raised.
\<close>

definition create_client :: "world \<Rightarrow> SFTPConfig \<Rightarrow> state \<Rightarrow> (exn + nat) \<times> state" where
  "create_client w config s =
     (let client = clients s;
          timeout = (if connect_timeout_seconds config = - 1 then None
                     else Some (connect_timeout_seconds config));
          s1 = tick (connect_dur w client) (s\<lparr> clients := Suc client \<rparr>)
      in case connect_raises w client of
           Some msg \<Rightarrow> (Inl (Raised Connect msg), log (EvConnect client timeout False) s1)
         | None \<Rightarrow> (Inr client, log (EvConnect client timeout True) s1))"

text \<open>
  The \<^verbatim>\<open>try\<close> block of \<^verbatim>\<open>sftp_operation\<close>: \<^verbatim>\<open>put\<close>, then \<^verbatim>\<open>remove\<close>; the first exception
  ends the block and is caught.
\<close>

definition put_and_remove ::
  "world \<Rightarrow> nat \<Rightarrow> string \<Rightarrow> string \<Rightarrow> nat \<Rightarrow> state \<Rightarrow> exn option \<times> state" where
  "put_and_remove w client local_path remote position s =
     (let s1 = tick (put_dur w position) s in
      case put_raises w position of
        Some msg \<Rightarrow> (Some (Raised Put msg), log (EvPut client local_path remote False) s1)
      | None \<Rightarrow>
          (let s2 = tick (remove_dur w position) (log (EvPut client local_path remote True) s1) in
           case remove_raises w position of
             Some msg \<Rightarrow> (Some (Raised Remove msg), log (EvRemove client remote False) s2)
           | None \<Rightarrow> (None, log (EvRemove client remote True) s2)))"

text \<open>
  \<^verbatim>\<open>sftp_operation\<close> from \<^verbatim>\<open>sftp = client.open_sftp()\<close> to its end, with the client and the
  connect time the first part has settled. \<^verbatim>\<open>open_sftp\<close> is outside every \<^verbatim>\<open>try\<close>: its
  exception leaves the function.
\<close>

definition transfer ::
  "world \<Rightarrow> SFTPConfig \<Rightarrow> string \<Rightarrow> string \<Rightarrow> int \<Rightarrow> nat \<Rightarrow> int \<Rightarrow> nat \<Rightarrow> state
     \<Rightarrow> (exn + FileStat) \<times> state" where
  "transfer w config local_path remote_name file_size client conn_time position s =
     (case open_sftp_raises w position of
        Some msg \<Rightarrow> (Inl (Raised OpenSftp msg), log (EvOpenSftp client False) s)
      | None \<Rightarrow>
          (let s1 = log (EvOpenSftp client True) s;
               start_transfer = clock s1;
               (raised, s2) =
                  put_and_remove w client local_path
                    (path_join (root_dir config) remote_name) position s1;
               transfer_time = clock s2 - start_transfer;
               s3 = log (EvSftpClose client) s2;
               s4 = (if keep_alive_enabled config = 0 then log (EvClientClose client) s3 else s3);
               s5 = (if sftp_sleep_interval config > 0
                     then log (EvSleep (sftp_sleep_interval config))
                            (tick (nat (sftp_sleep_interval config)) s4)
                     else s4)
           in (Inr \<lparr> name = remote_name, size_bytes = file_size, connect_time = conn_time,
                     transfer_time = transfer_time, success = (raised = None),
                     error = map_option str_exn raised \<rparr>, s5)))"

text \<open>
  \<^verbatim>\<open>sftp_operation(config, local_path, remote_name, client, position)\<close>. The result is
  the \<^verbatim>\<open>FileStat\<close> it returns, or the exception that leaves it.
\<close>

definition sftp_operation ::
  "world \<Rightarrow> SFTPConfig \<Rightarrow> string \<Rightarrow> string \<Rightarrow> nat option \<Rightarrow> nat \<Rightarrow> state
     \<Rightarrow> (exn + FileStat) \<times> state" where
  "sftp_operation w config local_path remote_name client position s =
     (case getsize s local_path of
        None \<Rightarrow> (Inl (Raised Getsize local_path), s)
      | Some file_size \<Rightarrow>
          (case client of
             None \<Rightarrow>
               (let start_conn = clock s in
                case create_client w config s of
                  (Inl e, s1) \<Rightarrow>
                    (Inr \<lparr> name = remote_name, size_bytes = file_size,
                           connect_time = clock s1 - start_conn, transfer_time = 0,
                           success = False, error = Some (str_exn e) \<rparr>, s1)
                | (Inr c, s1) \<Rightarrow>
                    transfer w config local_path remote_name file_size c
                      (clock s1 - start_conn) position s1)
           | Some c \<Rightarrow>
               transfer w config local_path remote_name file_size c 0 position s))"

text \<open>
  The payload loop of \<^verbatim>\<open>run_tests\<close>, over the indices still to generate: it returns the
  exception that ended it, if any, with the \<^verbatim>\<open>paths\<close> appended so far.
\<close>

definition artifact_name :: "nat \<Rightarrow> string" where
  "artifact_name i = ''test_'' @ str_nat i @ ''.zip''"

fun generate ::
  "world \<Rightarrow> SFTPConfig \<Rightarrow> string \<Rightarrow> nat list \<Rightarrow> (string \<times> string) list \<Rightarrow> state
     \<Rightarrow> exn option \<times> (string \<times> string) list \<times> state" where
  "generate w config temp_dir [] paths s = (None, paths, s)"
| "generate w config temp_dir (i # rest) paths s =
     (case randint (random_bits w i)
             (min_test_file_size_bytes config) (max_test_file_size_bytes config) of
        Inl e \<Rightarrow> (Some e, paths, s)
      | Inr sz \<Rightarrow>
          (let local_path = path_join temp_dir (artifact_name i) in
           case create_random_zip w local_path sz s of
             (Some e, s1) \<Rightarrow> (Some e, paths, s1)
           | (None, s1) \<Rightarrow>
               generate w config temp_dir rest (paths @ [(local_path, artifact_name i)]) s1))"

text \<open>
  \<^verbatim>\<open>max_workers\<close>: the configured thread count when positive, else \<^verbatim>\<open>os.cpu_count()\<close>,
  which may be \<^verbatim>\<open>None\<close>; building the list of clients then raises \<^verbatim>\<open>TypeError\<close>, and
  \<^verbatim>\<open>ThreadPoolExecutor\<close> raises \<^verbatim>\<open>ValueError\<close> on 0 workers.
\<close>

definition max_workers :: "world \<Rightarrow> SFTPConfig \<Rightarrow> nat option" where
  "max_workers w config =
     (if sftp_threads config > 0 then Some (nat (sftp_threads config)) else cpu_count w)"

text \<open>
  \<^verbatim>\<open>[_create_client(config) for _ in range(max_workers)]\<close>: the clients are connected one
  after the other, and the first exception leaves the comprehension.
\<close>

fun warm_up :: "world \<Rightarrow> SFTPConfig \<Rightarrow> nat \<Rightarrow> state \<Rightarrow> (exn + nat list) \<times> state" where
  "warm_up w config 0 s = (Inr [], s)"
| "warm_up w config (Suc n) s =
     (case create_client w config s of
        (Inl e, s1) \<Rightarrow> (Inl e, s1)
      | (Inr c, s1) \<Rightarrow>
          (case warm_up w config n s1 of
             (Inl e, s2) \<Rightarrow> (Inl e, s2)
           | (Inr cs, s2) \<Rightarrow> (Inr (c # cs), s2)))"

definition make_clients ::
  "world \<Rightarrow> SFTPConfig \<Rightarrow> nat \<Rightarrow> state \<Rightarrow> (exn + nat option list) \<times> state" where
  "make_clients w config mw s =
     (if keep_alive_enabled config \<noteq> 0
      then (case warm_up w config mw s of
              (Inl e, s1) \<Rightarrow> (Inl e, s1)
            | (Inr cs, s1) \<Rightarrow> (Inr (map Some cs), s1))
      else (Inr (replicate mw None), s))"

text \<open>
  The submitted calls of \<^verbatim>\<open>sftp_operation\<close>, one per entry of \<^verbatim>\<open>paths\<close>, with the client
  of slot \<^verbatim>\<open>idx % max_workers\<close>. Every submitted call runs, also after another one has
  raised: leaving the \<^verbatim>\<open>with\<close> block waits for all of them. The calls are run here one
  after the other in submission order; what a call does to the world does not depend
  on the others.
\<close>

fun run_tasks ::
  "world \<Rightarrow> SFTPConfig \<Rightarrow> nat option list \<Rightarrow> nat \<Rightarrow> nat \<Rightarrow> (string \<times> string) list \<Rightarrow> state
     \<Rightarrow> (exn + FileStat) list \<times> state" where
  "run_tasks w config cs mw idx [] s = ([], s)"
| "run_tasks w config cs mw idx ((path, nm) # rest) s =
     (let (r, s1) = sftp_operation w config path nm (cs ! (idx mod mw)) idx s;
          (rs, s2) = run_tasks w config cs mw (Suc idx) rest s1
      in (r # rs, s2))"

text \<open>
  The loop over \<^verbatim>\<open>as_completed(futures)\<close>: \<^verbatim>\<open>future.result()\<close> returns the call's
  \<^verbatim>\<open>FileStat\<close>, which is added to the report, or raises the call's exception again.
\<close>

fun collect :: "(exn + FileStat) list \<Rightarrow> TestReport \<Rightarrow> exn + TestReport" where
  "collect [] report = Inr report"
| "collect (Inl e # rest) report = Inl e"
| "collect (Inr stat # rest) report = collect rest (add report stat)"

text \<open>\<^verbatim>\<open>for c in clients: c.close()\<close>, reached only with keep-alive enabled.\<close>

fun close_all :: "nat option list \<Rightarrow> state \<Rightarrow> state" where
  "close_all [] s = s"
| "close_all (Some c # cs) s = close_all cs (log (EvClientClose c) s)"
| "close_all (None # cs) s = close_all cs s"

text \<open>The body of the \<^verbatim>\<open>try\<close> block of \<^verbatim>\<open>run_tests\<close>, with the \<^verbatim>\<open>paths\<close> it leaves.\<close>

definition try_body ::
  "world \<Rightarrow> SFTPConfig \<Rightarrow> string \<Rightarrow> state
     \<Rightarrow> (exn + TestReport) \<times> (string \<times> string) list \<times> state" where
  "try_body w config temp_dir s =
     (case generate w config temp_dir [0..<nat (num_test_files config)] [] s of
        (Some e, paths, s1) \<Rightarrow> (Inl e, paths, s1)
      | (None, paths, s1) \<Rightarrow>
          (case max_workers w config of
             None \<Rightarrow>
               (Inl (Raised CpuCount
                      (if keep_alive_enabled config \<noteq> 0
                       then ''NoneType object cannot be interpreted as an integer''
                       else ''cannot multiply sequence by non-int of type NoneType'')),
                paths, s1)
           | Some mw \<Rightarrow>
               (case make_clients w config mw s1 of
                  (Inl e, s2) \<Rightarrow> (Inl e, paths, s2)
                | (Inr cs, s2) \<Rightarrow>
                    if mw = 0
                    then (Inl (Raised Executor ''max_workers must be greater than 0''), paths, s2)
                    else (let (results, s3) = run_tasks w config cs mw 0 paths s2 in
                          case collect (as_completed (completion w) 0 results) [] of
                            Inl e \<Rightarrow> (Inl e, paths, s3)
                          | Inr report \<Rightarrow>
                              (Inr report, paths,
                               if keep_alive_enabled config \<noteq> 0 then close_all cs s3 else s3)))))"

text \<open>The loop of the \<^verbatim>\<open>finally\<close> block: every path of \<^verbatim>\<open>paths\<close> that exists is removed.\<close>

fun remove_paths :: "(string \<times> string) list \<Rightarrow> state \<Rightarrow> state" where
  "remove_paths [] s = s"
| "remove_paths ((path, nm) # rest) s =
     remove_paths rest (if exists_path s path then remove_file path s else s)"

text \<open>
  \<^verbatim>\<open>run_tests(config)\<close>, from the initial state. \<^verbatim>\<open>tempfile.mkdtemp()\<close> is called before the
  \<^verbatim>\<open>try\<close>. \<^verbatim>\<open>os.rmdir\<close> ends the \<^verbatim>\<open>finally\<close> block and raises when the directory still
  holds a file; its exception replaces the one the \<^verbatim>\<open>try\<close> block left. The result is the
  report \<^verbatim>\<open>run_tests\<close> returns or the exception that leaves it, with the final state.
\<close>

definition run_tests :: "world \<Rightarrow> SFTPConfig \<Rightarrow> (exn + TestReport) \<times> state" where
  "run_tests w config =
     (case mkdtemp_result w of
        Inl msg \<Rightarrow> (Inl (Raised Mkdtemp msg), initial)
      | Inr temp_dir \<Rightarrow>
          (let (r, paths, s1) = try_body w config temp_dir initial;
               s2 = remove_paths paths s1
           in if files s2 = [] then (r, s2)
              else (Inl (Raised Rmdir ''Directory not empty''), s2)))"


section \<open>Reading a trace\<close>

text \<open>
  The timeout arguments of the \<^verbatim>\<open>client.connect\<close> calls of a trace, the sizes passed
  to \<^verbatim>\<open>os.urandom\<close>, and three counts: connect calls, connect calls that returned a
  session, and \<^verbatim>\<open>client.close\<close> calls.
\<close>

fun connect_timeouts :: "event list \<Rightarrow> int option list" where
  "connect_timeouts [] = []"
| "connect_timeouts (EvConnect c t ok # es) = t # connect_timeouts es"
| "connect_timeouts (e # es) = connect_timeouts es"

fun urandom_sizes :: "event list \<Rightarrow> int list" where
  "urandom_sizes [] = []"
| "urandom_sizes (EvUrandom n # es) = n # urandom_sizes es"
| "urandom_sizes (e # es) = urandom_sizes es"

fun connect_calls :: "event list \<Rightarrow> nat" where
  "connect_calls [] = 0"
| "connect_calls (EvConnect c t ok # es) = Suc (connect_calls es)"
| "connect_calls (e # es) = connect_calls es"

fun sessions_opened :: "event list \<Rightarrow> nat" where
  "sessions_opened [] = 0"
| "sessions_opened (EvConnect c t True # es) = Suc (sessions_opened es)"
| "sessions_opened (e # es) = sessions_opened es"

fun sessions_closed :: "event list \<Rightarrow> nat" where
  "sessions_closed [] = 0"
| "sessions_closed (EvClientClose c # es) = Suc (sessions_closed es)"
| "sessions_closed (e # es) = sessions_closed es"

fun sleeps :: "event list \<Rightarrow> int list" where
  "sleeps [] = []"
| "sleeps (EvSleep n # es) = n # sleeps es"
| "sleeps (e # es) = sleeps es"

text \<open>The \<^verbatim>\<open>timeout\<close> argument \<^verbatim>\<open>_create_client\<close> computes, on its own.\<close>

definition timeout_argument :: "SFTPConfig \<Rightarrow> int option" where
  "timeout_argument config =
     (if connect_timeout_seconds config = - 1 then None else Some (connect_timeout_seconds config))"

text \<open>
  What holds of every event of a run: \<^verbatim>\<open>os.urandom\<close> is asked for a size within the
  configured bounds, and \<^verbatim>\<open>connect\<close> is given the configured timeout argument.
\<close>

definition event_ok :: "SFTPConfig \<Rightarrow> event \<Rightarrow> bool" where
  "event_ok config e =
     (case e of
        EvUrandom n \<Rightarrow> min_test_file_size_bytes config \<le> n \<and> n \<le> max_test_file_size_bytes config
      | EvConnect c t ok \<Rightarrow> t = timeout_argument config
      | _ \<Rightarrow> True)"

text \<open>
  The number of connects that return a session among \<open>n\<close> connects, the first of which
  creates the client \<open>first\<close>.
\<close>

definition sessions_granted :: "world \<Rightarrow> nat \<Rightarrow> nat \<Rightarrow> nat" where
  "sessions_granted w first n = length (filter (\<lambda>c. connect_raises w c = None) [first..<first + n])"

text \<open>The counts of a state, with the number of clients created.\<close>

definition counts :: "state \<Rightarrow> nat \<times> nat \<times> nat \<times> nat" where
  "counts s = (connect_calls (trace s), sessions_opened (trace s), sessions_closed (trace s), clients s)"

text \<open>Every file of the scratch directory is a whole archive.\<close>

definition whole_archives :: "world \<Rightarrow> state \<Rightarrow> bool" where
  "whole_archives w s = list_all (\<lambda>e. snd e = archive_size w (fst e)) (files s)"

text \<open>
  The results of the submitted calls: one per path, and each \<^verbatim>\<open>FileStat\<close> among them has
  the name and the file size of its path.
\<close>

definition stat_of :: "state \<Rightarrow> exn + FileStat \<Rightarrow> string \<times> string \<Rightarrow> bool" where
  "stat_of s r p =
     (case r of Inl e \<Rightarrow> True
      | Inr stat \<Rightarrow> name stat = snd p \<and> getsize s (fst p) = Some (size_bytes stat))"

text \<open>
  Modelled from the spec: the source has no \<^verbatim>\<open>SetupError\<close> class; the specification's
  taxonomy gives the name to a scratch directory or payload write failure, that is, to
  an exception of \<^verbatim>\<open>tempfile.mkdtemp\<close> or of \<^verbatim>\<open>create_random_zip\<close>.
\<close>

fun is_setup_error :: "exn \<Rightarrow> bool" where
  "is_setup_error (Raised Mkdtemp msg) = True"
| "is_setup_error (Raised CreateZip msg) = True"
| "is_setup_error (Raised st msg) = False"

text \<open>
  The size \<^verbatim>\<open>random.randint\<close> returns for artifact \<open>i\<close> when the range is not empty.
\<close>

definition draw :: "world \<Rightarrow> SFTPConfig \<Rightarrow> nat \<Rightarrow> int" where
  "draw w config i =
     min_test_file_size_bytes config
     + int (random_bits w i
            mod nat (max_test_file_size_bytes config - min_test_file_size_bytes config + 1))"

text \<open>The call that raised an exception.\<close>

fun site_of :: "exn \<Rightarrow> site" where
  "site_of (Raised st msg) = st"

text \<open>The outcomes of \<^verbatim>\<open>create_random_zip\<close> that leave a partly written destination file.\<close>

fun leaves_partial_file :: "write_result \<Rightarrow> bool" where
  "leaves_partial_file (ArchiveFailed msg partial) = True"
| "leaves_partial_file r = False"

text \<open>
  The client an event belongs to, the events of one client in the order of the trace,
  and the number of \<^verbatim>\<open>client.close\<close> calls on one client.
\<close>

fun client_of :: "event \<Rightarrow> nat option" where
  "client_of (EvUrandom n) = None"
| "client_of (EvConnect c t ok) = Some c"
| "client_of (EvOpenSftp c ok) = Some c"
| "client_of (EvPut c lp rp ok) = Some c"
| "client_of (EvRemove c rp ok) = Some c"
| "client_of (EvSftpClose c) = Some c"
| "client_of (EvClientClose c) = Some c"
| "client_of (EvSleep n) = None"

definition client_events :: "nat \<Rightarrow> event list \<Rightarrow> event list" where
  "client_events c tr = filter (\<lambda>e. client_of e = Some c) tr"

definition closes_of :: "nat \<Rightarrow> event list \<Rightarrow> nat" where
  "closes_of c tr = length (filter (\<lambda>e. e = EvClientClose c) tr)"

text \<open>
  The calls a fresh session is expected to see on its client, from the connect to the
  close: nothing after a connect that raised; otherwise the SFTP channel, the upload,
  the remote delete when the upload returned, the close of the channel and, last, the
  close of the client.
\<close>

definition session_events ::
  "world \<Rightarrow> SFTPConfig \<Rightarrow> string \<Rightarrow> string \<Rightarrow> nat \<Rightarrow> nat \<Rightarrow> event list" where
  "session_events w config local_path remote_name position client =
     (case connect_raises w client of
        Some msg \<Rightarrow> [EvConnect client (timeout_argument config) False]
      | None \<Rightarrow>
          [EvConnect client (timeout_argument config) True, EvOpenSftp client True]
          @ (case put_raises w position of
               Some msg \<Rightarrow>
                 [EvPut client local_path (path_join (root_dir config) remote_name) False]
             | None \<Rightarrow>
                 [EvPut client local_path (path_join (root_dir config) remote_name) True,
                  EvRemove client (path_join (root_dir config) remote_name)
                    (remove_raises w position = None)])
          @ [EvSftpClose client, EvClientClose client])"

section \<open>Concrete worlds\<close>

text \<open>
  \<open>calm\<close>: every call succeeds; a connect takes 2 seconds, an upload 3, a remote delete 5;
  every draw of the default range gives 6003 bytes, which are stored in a stream of 6008. The others differ from it in one
  call: \<open>refused\<close> (every connect raises), \<open>no_channel\<close> (every \<^verbatim>\<open>open_sftp\<close> raises),
  \<open>upload_fails\<close> (every \<^verbatim>\<open>put\<close> raises), \<open>disk_full\<close> (writing an archive raises after 38
  bytes), \<open>last_first\<close> (the futures complete in another order), \<open>tiny\<close> (a payload of
  50 bytes is stored in a stream of 55), \<open>flaky\<close> (the connect of the second client raises).
\<close>

definition calm :: world where
  "calm = \<lparr> mkdtemp_result = Inr ''/tmp/tmpk3'', cpu_count = Some 4,
     random_bits = (\<lambda>_. 3),
     zip_result = (\<lambda>_. Written), stream_len = (\<lambda>_. 6008),
     connect_raises = (\<lambda>_. None), connect_dur = (\<lambda>_. 2),
     open_sftp_raises = (\<lambda>_. None),
     put_raises = (\<lambda>_. None), put_dur = (\<lambda>_. 3),
     remove_raises = (\<lambda>_. None), remove_dur = (\<lambda>_. 5),
     completion = (\<lambda>k. k) \<rparr>"

definition refused :: world where
  "refused = calm\<lparr> connect_raises := (\<lambda>_. Some ''Connection refused'') \<rparr>"

definition no_channel :: world where
  "no_channel = calm\<lparr> open_sftp_raises := (\<lambda>_. Some ''Channel closed'') \<rparr>"

definition upload_fails :: world where
  "upload_fails = calm\<lparr> put_raises := (\<lambda>_. Some ''Failure'') \<rparr>"

definition disk_full :: world where
  "disk_full = calm\<lparr> zip_result := (\<lambda>_. ArchiveFailed ''No space left on device'' 38) \<rparr>"

definition last_first :: world where
  "last_first = calm\<lparr> completion := (\<lambda>_. 1) \<rparr>"

definition tiny :: world where
  "tiny = calm\<lparr> stream_len := (\<lambda>_. 55) \<rparr>"

definition flaky :: world where
  "flaky = calm\<lparr> connect_raises := (\<lambda>c. if c = 1 then Some ''timed out'' else None) \<rparr>"

section \<open>Evaluation on concrete inputs\<close>

lemma str_nat_small: "n < 10 \<Longrightarrow> str_nat n = [digit_char n]"
  by (subst str_nat.simps) simp

lemma str_nat_large: "10 \<le> n \<Longrightarrow> str_nat n = str_nat (n div 10) @ [digit_char (n mod 10)]"
  by (subst str_nat.simps) simp

lemma as_completed_Nil: "as_completed pick k [] = []"
  by (subst as_completed.simps) simp

lemma as_completed_Cons:
  "as_completed pick k (x # xs) =
     (let i = pick k mod Suc (length xs)
      in (x # xs) ! i # as_completed pick (Suc k) (take i (x # xs) @ drop (Suc i) (x # xs)))"
  by (subst as_completed.simps) simp

text \<open>The equations that evaluate a run on a concrete world and configuration.\<close>

lemmas model_defs =
  run_tests_def try_body_def make_clients_def max_workers_def sftp_operation_def transfer_def
  put_and_remove_def create_client_def create_random_zip_def archive_size_def zip_overhead_def
  randint_def path_join_def artifact_name_def digit_char_def str_nat_small str_nat_large as_completed_Nil as_completed_Cons
  write_file_def remove_file_def getsize_def exists_path_def tick_def log_def initial_def add_def
  SFTPConfig_init_def Let_def upt_conv_Cons
  calm_def refused_def no_channel_def upload_fails_def disk_full_def last_first_def tiny_def flaky_def

section \<open>The retry-attempts option is not read\<close>

lemma create_client_retry: "create_client w (config\<lparr>retry_attempts := r\<rparr>) s = create_client w config s"
  by (simp add: create_client_def Let_def split: option.splits)

lemma transfer_retry:
  "transfer w (config\<lparr>retry_attempts := r\<rparr>) lp rn fs c ct pos s = transfer w config lp rn fs c ct pos s"
  by (simp add: transfer_def Let_def split: option.splits prod.splits)

lemma sftp_operation_retry:
  "sftp_operation w (config\<lparr>retry_attempts := r\<rparr>) lp rn c pos s = sftp_operation w config lp rn c pos s"
  by (simp add: sftp_operation_def create_client_retry transfer_retry Let_def split: option.splits prod.splits sum.splits)

lemma generate_retry:
  "generate w (config\<lparr>retry_attempts := r\<rparr>) dir is ps s = generate w config dir is ps s"
  by (induction "is" arbitrary: ps s) (simp_all add: Let_def split: sum.splits prod.splits option.splits)

lemma warm_up_retry: "warm_up w (config\<lparr>retry_attempts := r\<rparr>) n s = warm_up w config n s"
  by (induction n arbitrary: s) (simp_all add: create_client_retry split: prod.splits sum.splits)

lemma run_tasks_retry:
  "run_tasks w (config\<lparr>retry_attempts := r\<rparr>) cs mw idx ps s = run_tasks w config cs mw idx ps s"
  by (induction ps arbitrary: idx s) (auto simp: sftp_operation_retry split: prod.splits)

lemma try_body_retry: "try_body w (config\<lparr>retry_attempts := r\<rparr>) dir s = try_body w config dir s"
  by (simp add: try_body_def generate_retry make_clients_def max_workers_def warm_up_retry run_tasks_retry split: prod.splits option.splits sum.splits)


section \<open>Every event of a run\<close>

lemma connect_timeouts_append: "connect_timeouts (xs @ ys) = connect_timeouts xs @ connect_timeouts ys"
  by (induction xs rule: connect_timeouts.induct) simp_all

lemma urandom_sizes_append: "urandom_sizes (xs @ ys) = urandom_sizes xs @ urandom_sizes ys"
  by (induction xs rule: urandom_sizes.induct) simp_all

lemma randint_bounds: "randint r a b = Inr n \<Longrightarrow> a \<le> n \<and> n \<le> b"
proof -
  assume h: "randint r a b = Inr n"
  then have ab: "a \<le> b" and n: "n = a + int (r mod nat (b - a + 1))"
    by (auto simp: randint_def split: if_splits)
  have "r mod nat (b - a + 1) < nat (b - a + 1)"
    using ab by simp
  then have "int (r mod nat (b - a + 1)) \<le> b - a"
    using ab by linarith
  then show ?thesis using n by simp
qed

lemma create_random_zip_ok:
  "create_random_zip w d sz s = (r, s') \<Longrightarrow> list_all (event_ok config) (trace s)
   \<Longrightarrow> min_test_file_size_bytes config \<le> sz \<Longrightarrow> sz \<le> max_test_file_size_bytes config
   \<Longrightarrow> list_all (event_ok config) (trace s')"
  by (auto simp: create_random_zip_def write_file_def log_def event_ok_def
        split: write_result.splits if_splits)

lemma generate_ok:
  "generate w config dir is ps s = (r, ps', s') \<Longrightarrow> list_all (event_ok config) (trace s)
   \<Longrightarrow> list_all (event_ok config) (trace s')"
proof (induction "is" arbitrary: ps s)
  case Nil
  then show ?case by simp
next
  case (Cons i rest)
  show ?case
    using Cons.prems Cons.IH
    by (auto simp: Let_def split: sum.splits prod.splits option.splits
          dest!: randint_bounds dest: create_random_zip_ok)
qed

lemma create_client_ok:
  "create_client w config s = (r, s') \<Longrightarrow> list_all (event_ok config) (trace s)
   \<Longrightarrow> list_all (event_ok config) (trace s')"
  by (auto simp: create_client_def timeout_argument_def tick_def log_def Let_def event_ok_def
        split: option.splits)

lemma warm_up_ok:
  "warm_up w config n s = (r, s') \<Longrightarrow> list_all (event_ok config) (trace s)
   \<Longrightarrow> list_all (event_ok config) (trace s')"
  by (induction n arbitrary: s r) (auto split: sum.splits prod.splits dest: create_client_ok)

lemma transfer_ok:
  "transfer w config lp rn fs c ct pos s = (r, s') \<Longrightarrow> list_all (event_ok config) (trace s)
   \<Longrightarrow> list_all (event_ok config) (trace s')"
  by (auto simp: transfer_def put_and_remove_def tick_def log_def Let_def event_ok_def
        split: option.splits prod.splits if_splits)

lemma sftp_operation_ok:
  "sftp_operation w config lp rn c pos s = (r, s') \<Longrightarrow> list_all (event_ok config) (trace s)
   \<Longrightarrow> list_all (event_ok config) (trace s')"
  by (auto simp: sftp_operation_def Let_def split: option.splits prod.splits sum.splits
        dest: create_client_ok transfer_ok)

lemma run_tasks_ok:
  "run_tasks w config cs mw idx ps s = (rs, s') \<Longrightarrow> list_all (event_ok config) (trace s)
   \<Longrightarrow> list_all (event_ok config) (trace s')"
proof (induction ps arbitrary: idx s rs)
  case Nil
  then show ?case by simp
next
  case (Cons p ps)
  obtain path nm where p: "p = (path, nm)" by (cases p)
  obtain r s1 where o: "sftp_operation w config path nm (cs ! (idx mod mw)) idx s = (r, s1)"
    by (cases "sftp_operation w config path nm (cs ! (idx mod mw)) idx s")
  obtain rs1 s2 where t: "run_tasks w config cs mw (Suc idx) ps s1 = (rs1, s2)"
    by (cases "run_tasks w config cs mw (Suc idx) ps s1")
  have "s2 = s'"
    using Cons.prems(1) p o t by simp
  then show ?case
    using Cons.IH[OF _ sftp_operation_ok[OF o Cons.prems(2)]] t by simp
qed

lemma close_all_ok:
  "list_all (event_ok config) (trace s) \<Longrightarrow> list_all (event_ok config) (trace (close_all cs s))"
  by (induction cs s rule: close_all.induct) (simp_all add: log_def event_ok_def)

lemma remove_paths_trace: "trace (remove_paths ps s) = trace s"
  by (induction ps s rule: remove_paths.induct) (simp_all add: remove_file_def)

lemma try_body_ok:
  "try_body w config dir initial = (r, ps, s') \<Longrightarrow> list_all (event_ok config) (trace s')"
proof -
  assume h: "try_body w config dir initial = (r, ps, s')"
  have i: "list_all (event_ok config) (trace initial)"
    by (simp add: initial_def)
  obtain e ps1 s1 where g: "generate w config dir [0..<nat (num_test_files config)] [] initial = (e, ps1, s1)"
    by (cases "generate w config dir [0..<nat (num_test_files config)] [] initial")
  have s1: "list_all (event_ok config) (trace s1)"
    by (rule generate_ok[OF g i])
  have wu: "\<And>n r2 s2. warm_up w config n s1 = (r2, s2) \<Longrightarrow> list_all (event_ok config) (trace s2)"
    by (rule warm_up_ok[OF _ s1])
  have rt: "\<And>cs mw rs s2 s3. list_all (event_ok config) (trace s2)
              \<Longrightarrow> run_tasks w config cs mw 0 ps1 s2 = (rs, s3)
              \<Longrightarrow> list_all (event_ok config) (trace s3)"
    by (rule run_tasks_ok)
  show ?thesis
    using h g s1
    by (auto simp: try_body_def make_clients_def Let_def
          split: option.splits prod.splits sum.splits if_splits
          intro!: close_all_ok intro: wu rt)
qed

lemma run_tests_ok: "list_all (event_ok config) (trace (snd (run_tests w config)))"
proof (cases "mkdtemp_result w")
  case (Inl msg)
  then show ?thesis by (simp add: run_tests_def initial_def)
next
  case (Inr dir)
  obtain r ps s1 where t: "try_body w config dir initial = (r, ps, s1)"
    by (cases "try_body w config dir initial")
  show ?thesis
    using Inr t try_body_ok[OF t] by (simp add: run_tests_def remove_paths_trace Let_def)
qed

lemma event_ok_timeouts:
  "list_all (event_ok config) tr \<Longrightarrow> t \<in> set (connect_timeouts tr) \<Longrightarrow> t = timeout_argument config"
  by (induction tr rule: connect_timeouts.induct) (auto simp: event_ok_def)

lemma event_ok_urandom:
  "list_all (event_ok config) tr \<Longrightarrow> n \<in> set (urandom_sizes tr)
   \<Longrightarrow> min_test_file_size_bytes config \<le> n \<and> n \<le> max_test_file_size_bytes config"
  by (induction tr rule: urandom_sizes.induct) (auto simp: event_ok_def)

section \<open>Names, completion order and the report\<close>

lemma digit_char_inj: "a < 10 \<Longrightarrow> b < 10 \<Longrightarrow> digit_char a = digit_char b \<Longrightarrow> a = b"
proof -
  assume a: "a < 10" and b: "b < 10" and e: "digit_char a = digit_char b"
  have cases: "\<And>n. n < 10 \<Longrightarrow> n \<in> {0, 1, 2, 3, 4, 5, 6, 7, 8, 9::nat}"
    by auto
  from cases[OF a] cases[OF b] e show ?thesis
    by (auto simp: digit_char_def)
qed

lemma str_nat_nonempty: "str_nat n \<noteq> []"
  by (subst str_nat.simps) simp

lemma str_nat_inj: "str_nat m = str_nat n \<Longrightarrow> m = n"
proof (induction m arbitrary: n rule: str_nat.induct)
  case (1 m)
  show ?case
  proof (cases "m < 10")
    case True
    then have sm: "str_nat m = [digit_char m]" by (rule str_nat_small)
    show ?thesis
    proof (cases "n < 10")
      case n: True
      then show ?thesis
        using "1.prems" sm True digit_char_inj[of m n] by (simp add: str_nat_small)
    next
      case False
      then have "str_nat n = str_nat (n div 10) @ [digit_char (n mod 10)]"
        by (simp add: str_nat_large)
      then show ?thesis
        using "1.prems" sm str_nat_nonempty[of "n div 10"] by simp
    qed
  next
    case False
    then have sm: "str_nat m = str_nat (m div 10) @ [digit_char (m mod 10)]"
      by (simp add: str_nat_large)
    show ?thesis
    proof (cases "n < 10")
      case True
      then show ?thesis
        using "1.prems" sm str_nat_nonempty[of "m div 10"] by (simp add: str_nat_small)
    next
      case n: False
      then have sn: "str_nat n = str_nat (n div 10) @ [digit_char (n mod 10)]"
        by (simp add: str_nat_large)
      have e: "str_nat (m div 10) = str_nat (n div 10)" and d: "digit_char (m mod 10) = digit_char (n mod 10)"
        using "1.prems" sm sn by simp_all
      have "m div 10 = n div 10"
        using "1.IH"[OF False e] .
      moreover have "m mod 10 = n mod 10"
        using digit_char_inj[OF _ _ d] by simp
      ultimately show ?thesis
        by (metis div_mult_mod_eq)
    qed
  qed
qed

lemma artifact_name_inj: "artifact_name i = artifact_name j \<Longrightarrow> i = j"
  by (simp add: artifact_name_def str_nat_inj)

lemma distinct_artifact_names: "distinct (map artifact_name [0..<n])"
  by (simp add: distinct_map inj_on_def artifact_name_inj)

lemma mset_as_completed: "mset (as_completed pick k xs) = mset xs"
proof (induction pick k xs rule: as_completed.induct)
  case (1 pick k xs)
  show ?case
  proof (cases "xs = []")
    case True
    then show ?thesis by (simp add: as_completed_Nil)
  next
    case False
    define i where "i = pick k mod length xs"
    have i: "i < length xs" using False by (simp add: i_def)
    have step: "as_completed pick k xs = xs ! i # as_completed pick (Suc k) (take i xs @ drop (Suc i) xs)"
      using False by (subst as_completed.simps) (simp add: i_def Let_def)
    have "mset (as_completed pick (Suc k) (take i xs @ drop (Suc i) xs)) = mset (take i xs @ drop (Suc i) xs)"
      using "1.IH"[OF False i_def] .
    moreover have "mset xs = mset (take i xs @ xs ! i # drop (Suc i) xs)"
      using id_take_nth_drop[OF i] by simp
    ultimately show ?thesis
      using step by simp
  qed
qed

lemma collect_Inr: "collect rs report = Inr out \<Longrightarrow> map Inr out = map Inr report @ rs"
  by (induction rs report rule: collect.induct) (simp_all add: add_def)

lemma generate_step:
  "generate w config dir (i # rest) ps s = (None, ps', s')
   \<Longrightarrow> \<exists>sz s1. randint (random_bits w i) (min_test_file_size_bytes config)
                    (max_test_file_size_bytes config) = Inr sz
        \<and> create_random_zip w (path_join dir (artifact_name i)) sz s = (None, s1)
        \<and> generate w config dir rest (ps @ [(path_join dir (artifact_name i), artifact_name i)]) s1
            = (None, ps', s')"
  by (auto simp: Let_def split: sum.splits prod.splits option.splits)

lemma generate_paths:
  "generate w config dir is ps s = (None, ps', s')
   \<Longrightarrow> ps' = ps @ map (\<lambda>i. (path_join dir (artifact_name i), artifact_name i)) is"
proof (induction "is" arbitrary: ps s)
  case Nil
  then show ?case by simp
next
  case (Cons i rest)
  from generate_step[OF Cons.prems] obtain sz s1 where
    "generate w config dir rest (ps @ [(path_join dir (artifact_name i), artifact_name i)]) s1
       = (None, ps', s')"
    by blast
  from Cons.IH[OF this] show ?case by simp
qed

lemma create_random_zip_whole:
  "create_random_zip w d sz s = (None, s') \<Longrightarrow> whole_archives w s \<Longrightarrow> whole_archives w s'"
  by (auto simp: create_random_zip_def write_file_def log_def whole_archives_def list_all_iff
        split: write_result.splits if_splits)

lemma generate_whole:
  "generate w config dir is ps s = (None, ps', s') \<Longrightarrow> whole_archives w s \<Longrightarrow> whole_archives w s'"
proof (induction "is" arbitrary: ps s)
  case Nil
  then show ?case by simp
next
  case (Cons i rest)
  from generate_step[OF Cons.prems(1)] obtain sz s1 where
    z: "create_random_zip w (path_join dir (artifact_name i)) sz s = (None, s1)" and
    g: "generate w config dir rest (ps @ [(path_join dir (artifact_name i), artifact_name i)]) s1
       = (None, ps', s')"
    by blast
  from Cons.IH[OF g create_random_zip_whole[OF z Cons.prems(2)]] show ?case .
qed

lemma whole_archives_getsize:
  "whole_archives w s \<Longrightarrow> getsize s p = Some n \<Longrightarrow> n = archive_size w p"
  by (fastforce simp: whole_archives_def getsize_def list_all_iff dest: map_of_SomeD)

text \<open>What a transfer leaves alone, and what its \<^verbatim>\<open>FileStat\<close> repeats.\<close>

lemma create_client_files: "create_client w config s = (r, s') \<Longrightarrow> files s' = files s"
  by (auto simp: create_client_def tick_def log_def Let_def split: option.splits)

lemma transfer_files: "transfer w config lp rn fs c ct pos s = (r, s') \<Longrightarrow> files s' = files s"
  by (auto simp: transfer_def put_and_remove_def tick_def log_def Let_def
        split: option.splits prod.splits if_splits)

lemma transfer_stat:
  "transfer w config lp rn fs c ct pos s = (Inr stat, s') \<Longrightarrow> name stat = rn \<and> size_bytes stat = fs"
  by (auto simp: transfer_def Let_def split: option.splits prod.splits)

lemma sftp_operation_files:
  "sftp_operation w config lp rn c pos s = (r, s') \<Longrightarrow> files s' = files s"
  by (auto simp: sftp_operation_def Let_def split: option.splits prod.splits sum.splits
        dest!: create_client_files transfer_files)

lemma sftp_operation_stat:
  "sftp_operation w config lp rn c pos s = (Inr stat, s')
   \<Longrightarrow> name stat = rn \<and> getsize s lp = Some (size_bytes stat)"
  by (auto simp: sftp_operation_def Let_def split: option.splits prod.splits sum.splits
        dest: transfer_stat)

lemma run_tasks_results:
  "run_tasks w config cs mw idx ps s = (rs, s') \<Longrightarrow> files s' = files s \<and> list_all2 (stat_of s) rs ps"
proof (induction ps arbitrary: idx s rs s')
  case Nil
  then show ?case by simp
next
  case (Cons p ps)
  obtain path nm where p: "p = (path, nm)" by (cases p)
  obtain r s1 where o: "sftp_operation w config path nm (cs ! (idx mod mw)) idx s = (r, s1)"
    by (cases "sftp_operation w config path nm (cs ! (idx mod mw)) idx s")
  obtain rs1 s2 where t: "run_tasks w config cs mw (Suc idx) ps s1 = (rs1, s2)"
    by (cases "run_tasks w config cs mw (Suc idx) ps s1")
  have rs: "rs = r # rs1" and s': "s' = s2"
    using Cons.prems p o t by simp_all
  have f1: "files s1 = files s"
    by (rule sftp_operation_files[OF o])
  have ih: "files s2 = files s1" "list_all2 (stat_of s1) rs1 ps"
    using Cons.IH[OF t] by simp_all
  have same: "stat_of s1 = stat_of s"
    by (auto simp: stat_of_def getsize_def f1 fun_eq_iff split: sum.splits)
  have "stat_of s r p"
    using sftp_operation_stat[of w config path nm "cs ! (idx mod mw)" idx s _ s1] o p
    by (cases r) (simp_all add: stat_of_def)
  then show ?case
    using ih f1 same rs s' by simp
qed


lemma Inr_results:
  assumes m: "mset (map Inr out) = mset rs"
  shows "rs = map Inr (map projr rs) \<and> mset out = mset (map projr rs)"
proof -
  have "set rs = Inr ` set out"
    using m by (metis set_map set_mset_mset)
  then have "\<And>r. r \<in> set rs \<Longrightarrow> (Inr \<circ> projr) r = r"
    by auto
  then have "map (Inr \<circ> projr) rs = rs"
    by (rule map_idI)
  then have a: "rs = map Inr (map projr rs)"
    by simp
  from arg_cong[OF m, of "image_mset projr"]
  have "mset out = mset (map projr rs)"
    by (simp add: multiset.map_comp comp_def)
  with a show ?thesis by simp
qed

lemma stats_of_paths:
  "list_all2 (stat_of s) (map Inr sts) ps
   \<Longrightarrow> map name sts = map snd ps
       \<and> (\<forall>i < length sts. getsize s (fst (ps ! i)) = Some (size_bytes (sts ! i)))"
  by (induction sts arbitrary: ps)
     (auto simp: stat_of_def list_all2_Cons1 less_Suc_eq_0_disj)


lemma warm_up_files: "warm_up w config n s = (r, s') \<Longrightarrow> files s' = files s"
proof (induction n arbitrary: s r s')
  case 0
  then show ?case by simp
next
  case (Suc n)
  obtain r1 s1 where c: "create_client w config s = (r1, s1)"
    by (cases "create_client w config s")
  obtain r2 s2 where u: "warm_up w config n s1 = (r2, s2)"
    by (cases "warm_up w config n s1")
  have "s' = s1 \<or> s' = s2"
    using Suc.prems c u by (auto split: sum.splits)
  then show ?case
    using create_client_files[OF c] Suc.IH[OF u] by auto
qed

lemma make_clients_files: "make_clients w config mw s = (r, s') \<Longrightarrow> files s' = files s"
  by (auto simp: make_clients_def split: if_splits prod.splits sum.splits dest: warm_up_files)

lemma try_body_report:
  assumes t: "try_body w config dir initial = (Inr report, ps, s')"
  shows "ps = map (\<lambda>i. (path_join dir (artifact_name i), artifact_name i))
                 [0..<nat (num_test_files config)]
       \<and> (\<exists>sts. mset report = mset sts \<and> map name sts = map snd ps
             \<and> (\<forall>i < length sts.
                   size_bytes (sts ! i) = archive_size w (fst (ps ! i))))"
proof -
  obtain e ps1 s1 where
    g: "generate w config dir [0..<nat (num_test_files config)] [] initial = (e, ps1, s1)"
    by (cases "generate w config dir [0..<nat (num_test_files config)] [] initial")
  have e: "e = None" and ps1: "ps1 = ps"
    using t g by (auto simp: try_body_def Let_def
        split: option.splits prod.splits sum.splits if_splits)
  have g': "generate w config dir [0..<nat (num_test_files config)] [] initial = (None, ps, s1)"
    using g e ps1 by simp
  have paths: "ps = map (\<lambda>i. (path_join dir (artifact_name i), artifact_name i))
                       [0..<nat (num_test_files config)]"
    using generate_paths[OF g'] by simp
  have whole: "whole_archives w s1"
    by (rule generate_whole[OF g']) (simp add: whole_archives_def initial_def)
  obtain mw cs s2 rs s3 where
    mc: "make_clients w config mw s1 = (Inr cs, s2)" and
    rt: "run_tasks w config cs mw 0 ps s2 = (rs, s3)" and
    co: "collect (as_completed (completion w) 0 rs) [] = Inr report"
    using t g' by (auto simp: try_body_def Let_def
        split: option.splits prod.splits sum.splits if_splits)
  have f2: "files s2 = files s1"
    by (rule make_clients_files[OF mc])
  have whole2: "whole_archives w s2"
    using whole f2 by (simp add: whole_archives_def)
  have res: "list_all2 (stat_of s2) rs ps"
    using run_tasks_results[OF rt] by simp
  have "map Inr report = as_completed (completion w) 0 rs"
    using collect_Inr[OF co] by simp
  then have "mset (map Inr report) = mset rs"
    by (simp add: mset_as_completed)
  from Inr_results[OF this]
  have rs: "rs = map Inr (map projr rs)" and perm: "mset report = mset (map projr rs)"
    by simp_all
  have "list_all2 (stat_of s2) (map Inr (map projr rs)) ps"
    using res rs by simp
  from stats_of_paths[OF this]
  have names: "map name (map projr rs) = map snd ps" and
    sizes: "\<forall>i < length (map projr rs).
              getsize s2 (fst (ps ! i)) = Some (size_bytes (map projr rs ! i))"
    by simp_all
  have "\<forall>i < length (map projr rs).
          size_bytes (map projr rs ! i) = archive_size w (fst (ps ! i))"
    using sizes whole_archives_getsize[OF whole2] by blast
  then show ?thesis
    using paths perm names by blast
qed


lemma run_tests_Inr:
  assumes "fst (run_tests w config) = Inr report"
  shows "\<exists>dir ps s1. mkdtemp_result w = Inr dir
           \<and> try_body w config dir initial = (Inr report, ps, s1)
           \<and> snd (run_tests w config) = remove_paths ps s1"
proof (cases "mkdtemp_result w")
  case (Inl msg)
  then show ?thesis
    using assms by (simp add: run_tests_def)
next
  case (Inr dir)
  obtain r ps s1 where t: "try_body w config dir initial = (r, ps, s1)"
    by (cases "try_body w config dir initial")
  have "r = Inr report \<and> snd (run_tests w config) = remove_paths ps s1"
    using assms Inr t by (auto simp: run_tests_def Let_def split: if_splits)
  then show ?thesis
    using Inr t by simp
qed

lemma report_entries:
  assumes t: "try_body w config dir initial = (Inr report, ps, s')"
  shows "length report = nat (num_test_files config)
       \<and> mset (map name report) = mset (map artifact_name [0..<nat (num_test_files config)])
       \<and> (\<forall>stat \<in> set report.
             size_bytes stat = archive_size w (path_join dir (name stat)))"
proof -
  let ?n = "nat (num_test_files config)"
  from try_body_report[OF t] obtain sts where
    ps: "ps = map (\<lambda>i. (path_join dir (artifact_name i), artifact_name i)) [0..<?n]" and
    perm: "mset report = mset sts" and
    names: "map name sts = map snd ps" and
    sizes: "\<forall>i < length sts. size_bytes (sts ! i) = archive_size w (fst (ps ! i))"
    by blast
  have len: "length sts = ?n"
    using arg_cong[OF names, of length] ps by simp
  have "length report = length sts"
    using perm by (rule mset_eq_length)
  then have a: "length report = ?n"
    using len by simp
  have "mset (map name report) = mset (map name sts)"
    using perm by (metis mset_map)
  then have b: "mset (map name report) = mset (map artifact_name [0..<?n])"
    using names ps by (simp add: comp_def)
  have c: "\<forall>stat \<in> set report. size_bytes stat = archive_size w (path_join dir (name stat))"
  proof
    fix stat
    assume "stat \<in> set report"
    then have "stat \<in> set sts"
      using perm by (metis set_mset_mset)
    then obtain i where i: "i < length sts" and st: "sts ! i = stat"
      by (auto simp: in_set_conv_nth)
    have "name stat = snd (ps ! i)"
      using arg_cong[OF names, of "\<lambda>xs. xs ! i"] i st len ps by simp
    then have "fst (ps ! i) = path_join dir (name stat)"
      using ps i len by simp
    then show "size_bytes stat = archive_size w (path_join dir (name stat))"
      using sizes i st by auto
  qed
  from a b c show ?thesis by simp
qed

section \<open>Counting sessions\<close>

lemma connect_calls_append: "connect_calls (xs @ ys) = connect_calls xs + connect_calls ys"
  by (induction xs rule: connect_calls.induct) simp_all

lemma sessions_opened_append: "sessions_opened (xs @ ys) = sessions_opened xs + sessions_opened ys"
  by (induction xs rule: sessions_opened.induct) simp_all

lemma sessions_closed_append: "sessions_closed (xs @ ys) = sessions_closed xs + sessions_closed ys"
  by (induction xs rule: sessions_closed.induct) simp_all

lemmas count_append = connect_calls_append sessions_opened_append sessions_closed_append

lemma create_random_zip_counts: "create_random_zip w d sz s = (r, s') \<Longrightarrow> counts s' = counts s"
  by (auto simp: create_random_zip_def write_file_def log_def counts_def count_append
        split: write_result.splits if_splits)

lemma generate_counts: "generate w config dir is ps s = (r, ps', s') \<Longrightarrow> counts s' = counts s"
proof (induction "is" arbitrary: ps s)
  case Nil
  then show ?case by simp
next
  case (Cons i rest)
  show ?case
  proof (cases "randint (random_bits w i) (min_test_file_size_bytes config)
                  (max_test_file_size_bytes config)")
    case (Inl e)
    then show ?thesis using Cons.prems by simp
  next
    case (Inr sz)
    obtain r1 s1 where z: "create_random_zip w (path_join dir (artifact_name i)) sz s = (r1, s1)"
      by (cases "create_random_zip w (path_join dir (artifact_name i)) sz s")
    show ?thesis
    proof (cases r1)
      case None
      then have "generate w config dir rest
                   (ps @ [(path_join dir (artifact_name i), artifact_name i)]) s1 = (r, ps', s')"
        using Cons.prems Inr z by (simp add: Let_def)
      from Cons.IH[OF this] create_random_zip_counts[OF z] show ?thesis by simp
    next
      case (Some e)
      then have "s' = s1"
        using Cons.prems Inr z by (simp add: Let_def)
      then show ?thesis using create_random_zip_counts[OF z] by simp
    qed
  qed
qed

lemma sftp_operation_fresh_counts:
  assumes "sftp_operation w config lp rn None pos s = (Inr stat, s')"
    and "keep_alive_enabled config = 0"
  shows "counts s' =
     (Suc (connect_calls (trace s)),
      sessions_opened (trace s) + (if connect_raises w (clients s) = None then 1 else 0),
      sessions_closed (trace s) + (if connect_raises w (clients s) = None then 1 else 0),
      Suc (clients s))"
  using assms
  by (auto simp: sftp_operation_def transfer_def put_and_remove_def create_client_def
        tick_def log_def Let_def counts_def count_append
        split: option.splits prod.splits sum.splits if_splits)

lemma sftp_operation_pooled_counts:
  assumes "sftp_operation w config lp rn (Some c) pos s = (Inr stat, s')"
    and "keep_alive_enabled config \<noteq> 0"
  shows "counts s' = counts s"
  using assms
  by (auto simp: sftp_operation_def transfer_def put_and_remove_def
        tick_def log_def Let_def counts_def count_append
        split: option.splits prod.splits sum.splits if_splits)

lemma sessions_granted_Suc:
  "sessions_granted w first (Suc n)
     = (if connect_raises w first = None then 1 else 0) + sessions_granted w (Suc first) n"
proof -
  have "[first..<first + Suc n] = first # [Suc first..<Suc first + n]"
    by (subst upt_rec) simp
  then show ?thesis
    by (simp add: sessions_granted_def del: upt_Suc)
qed

lemma run_tasks_fresh_counts:
  assumes "run_tasks w config (replicate mw None) mw idx ps s = (map Inr sts, s')"
    and "keep_alive_enabled config = 0" and "0 < mw"
  shows "counts s' =
     (connect_calls (trace s) + length ps,
      sessions_opened (trace s) + sessions_granted w (clients s) (length ps),
      sessions_closed (trace s) + sessions_granted w (clients s) (length ps),
      clients s + length ps)"
  using assms(1)
proof (induction ps arbitrary: idx s sts s')
  case Nil
  then show ?case by (simp add: counts_def sessions_granted_def)
next
  case (Cons p ps)
  obtain path nm where p: "p = (path, nm)" by (cases p)
  have none: "replicate mw None ! (idx mod mw) = (None :: nat option)"
    using assms(3) by simp
  obtain r s1 where o: "sftp_operation w config path nm None idx s = (r, s1)"
    by (cases "sftp_operation w config path nm None idx s")
  obtain rs1 s2 where t: "run_tasks w config (replicate mw None) mw (Suc idx) ps s1 = (rs1, s2)"
    by (cases "run_tasks w config (replicate mw None) mw (Suc idx) ps s1")
  have e: "map Inr sts = r # rs1" and s': "s' = s2"
    using Cons.prems p o t none by simp_all
  then obtain stat sts1 where sts: "sts = stat # sts1" and r: "r = Inr stat" and rs1: "rs1 = map Inr sts1"
    by (cases sts) auto
  have c1: "counts s1 =
     (Suc (connect_calls (trace s)),
      sessions_opened (trace s) + (if connect_raises w (clients s) = None then 1 else 0),
      sessions_closed (trace s) + (if connect_raises w (clients s) = None then 1 else 0),
      Suc (clients s))"
    using sftp_operation_fresh_counts[OF _ assms(2)] o r by simp
  have c2: "counts s2 =
     (connect_calls (trace s1) + length ps,
      sessions_opened (trace s1) + sessions_granted w (clients s1) (length ps),
      sessions_closed (trace s1) + sessions_granted w (clients s1) (length ps),
      clients s1 + length ps)"
    using Cons.IH[of "Suc idx" s1 sts1 s2] t rs1 by simp
  show ?case
    using c1 c2 s' by (simp add: counts_def sessions_granted_Suc)
qed


lemma warm_up_counts:
  "warm_up w config n s = (Inr cs, s')
   \<Longrightarrow> length cs = n
       \<and> counts s' = (connect_calls (trace s) + n, sessions_opened (trace s) + n,
                      sessions_closed (trace s), clients s + n)"
proof (induction n arbitrary: s cs s')
  case 0
  then show ?case by (simp add: counts_def)
next
  case (Suc n)
  obtain r1 s1 where c: "create_client w config s = (r1, s1)"
    by (cases "create_client w config s")
  obtain r2 s2 where u: "warm_up w config n s1 = (r2, s2)"
    by (cases "warm_up w config n s1")
  obtain c1 cs1 where r1: "r1 = Inr c1" and r2: "r2 = Inr cs1" and cs: "cs = c1 # cs1" and s': "s' = s2"
    using Suc.prems c u by (auto split: sum.splits)
  have k1: "counts s1 = (Suc (connect_calls (trace s)), Suc (sessions_opened (trace s)),
                         sessions_closed (trace s), Suc (clients s))"
    using c r1 by (auto simp: create_client_def tick_def log_def Let_def counts_def count_append
        split: option.splits)
  have k2: "length cs1 = n \<and> counts s2 = (connect_calls (trace s1) + n, sessions_opened (trace s1) + n,
                      sessions_closed (trace s1), clients s1 + n)"
    using Suc.IH[of s1 cs1 s2] u r2 by simp
  show ?case
    using k1 k2 cs s' by (simp add: counts_def)
qed

lemma run_tasks_pooled_counts:
  assumes "run_tasks w config (map Some cs) mw idx ps s = (map Inr sts, s')"
    and "keep_alive_enabled config \<noteq> 0" and "0 < mw" and "length cs = mw"
  shows "counts s' = counts s"
  using assms(1)
proof (induction ps arbitrary: idx s sts s')
  case Nil
  then show ?case by simp
next
  case (Cons p ps)
  obtain path nm where p: "p = (path, nm)" by (cases p)
  have some: "map Some cs ! (idx mod mw) = Some (cs ! (idx mod mw))"
    using assms(3,4) by simp
  obtain r s1 where o: "sftp_operation w config path nm (Some (cs ! (idx mod mw))) idx s = (r, s1)"
    by (cases "sftp_operation w config path nm (Some (cs ! (idx mod mw))) idx s")
  obtain rs1 s2 where t: "run_tasks w config (map Some cs) mw (Suc idx) ps s1 = (rs1, s2)"
    by (cases "run_tasks w config (map Some cs) mw (Suc idx) ps s1")
  have e: "map Inr sts = r # rs1" and s': "s' = s2"
    using Cons.prems p o t some by simp_all
  then obtain stat sts1 where r: "r = Inr stat" and rs1: "rs1 = map Inr sts1"
    by (cases sts) auto
  have "counts s1 = counts s"
    using sftp_operation_pooled_counts[OF _ assms(2)] o r by simp
  moreover have "counts s2 = counts s1"
    using Cons.IH[of "Suc idx" s1 sts1 s2] t rs1 by simp
  ultimately show ?case
    using s' by simp
qed

lemma close_all_counts:
  "counts (close_all (map Some cs) s)
     = (connect_calls (trace s), sessions_opened (trace s),
        sessions_closed (trace s) + length cs, clients s)"
  by (induction cs arbitrary: s) (simp_all add: counts_def log_def count_append)

lemma remove_paths_counts: "counts (remove_paths ps s) = counts s"
  by (induction ps s rule: remove_paths.induct) (simp_all add: counts_def remove_file_def)

text \<open>The parts of a \<^verbatim>\<open>try\<close> block that ends with a report.\<close>

lemma try_body_Inr:
  assumes "try_body w config dir initial = (Inr report, ps, s')"
  shows "\<exists>s1 mw cs s2 sts s3.
           generate w config dir [0..<nat (num_test_files config)] [] initial = (None, ps, s1)
         \<and> max_workers w config = Some mw \<and> 0 < mw
         \<and> make_clients w config mw s1 = (Inr cs, s2)
         \<and> run_tasks w config cs mw 0 ps s2 = (map Inr sts, s3)
         \<and> mset report = mset sts
         \<and> s' = (if keep_alive_enabled config \<noteq> 0 then close_all cs s3 else s3)"
proof -
  obtain e ps1 s1 where
    g: "generate w config dir [0..<nat (num_test_files config)] [] initial = (e, ps1, s1)"
    by (cases "generate w config dir [0..<nat (num_test_files config)] [] initial")
  have e: "e = None" and ps1: "ps1 = ps"
    using assms g by (auto simp: try_body_def Let_def
        split: option.splits prod.splits sum.splits if_splits)
  obtain mw cs s2 rs s3 where
    mw: "max_workers w config = Some mw" "0 < mw" and
    mc: "make_clients w config mw s1 = (Inr cs, s2)" and
    rt: "run_tasks w config cs mw 0 ps s2 = (rs, s3)" and
    co: "collect (as_completed (completion w) 0 rs) [] = Inr report" and
    s': "s' = (if keep_alive_enabled config \<noteq> 0 then close_all cs s3 else s3)"
    using assms g e ps1 by (auto simp: try_body_def Let_def
        split: option.splits prod.splits sum.splits if_splits)
  have "map Inr report = as_completed (completion w) 0 rs"
    using collect_Inr[OF co] by simp
  then have "mset (map Inr report) = mset rs"
    by (simp add: mset_as_completed)
  from Inr_results[OF this]
  have "rs = map Inr (map projr rs)" "mset report = mset (map projr rs)"
    by simp_all
  then show ?thesis
    using g e ps1 mw mc rt s' by metis
qed


lemma pooled_sessions_of_a_completed_run:
  assumes "keep_alive_enabled config \<noteq> 0" and "fst (run_tests w config) = Inr report"
    and "max_workers w config = Some c"
  shows "connect_calls (trace (snd (run_tests w config))) = c
       \<and> sessions_opened (trace (snd (run_tests w config))) = c
       \<and> sessions_closed (trace (snd (run_tests w config))) = c"
proof -
  from run_tests_Inr[OF assms(2)] obtain dir ps s' where
    t: "try_body w config dir initial = (Inr report, ps, s')" and
    fin: "snd (run_tests w config) = remove_paths ps s'"
    by blast
  from try_body_Inr[OF t] obtain s1 mw cs s2 sts s3 where
    g: "generate w config dir [0..<nat (num_test_files config)] [] initial = (None, ps, s1)" and
    mw: "max_workers w config = Some mw" "0 < mw" and
    mc: "make_clients w config mw s1 = (Inr cs, s2)" and
    rt: "run_tasks w config cs mw 0 ps s2 = (map Inr sts, s3)" and
    s': "s' = (if keep_alive_enabled config \<noteq> 0 then close_all cs s3 else s3)"
    by blast
  have c: "mw = c" using mw assms(3) by simp
  have k1: "counts s1 = (0, 0, 0, 0)"
    using generate_counts[OF g] by (simp add: counts_def initial_def)
  obtain ks where wu: "warm_up w config mw s1 = (Inr ks, s2)" and cs: "cs = map Some ks"
    using mc assms(1) by (auto simp: make_clients_def split: prod.splits sum.splits)
  have k2: "length ks = mw" "counts s2 = (mw, mw, 0, mw)"
    using warm_up_counts[OF wu] k1 by (simp_all add: counts_def)
  have k3: "counts s3 = counts s2"
    using run_tasks_pooled_counts[OF rt[unfolded cs] assms(1) mw(2) k2(1)] .
  have "counts s3 = (mw, mw, 0, mw)"
    using k3 k2 by simp
  then have "counts (close_all (map Some ks) s3) = (mw, mw, mw, mw)"
    using k2(1) unfolding close_all_counts by (simp add: counts_def)
  moreover have "counts (snd (run_tests w config)) = counts (close_all (map Some ks) s3)"
    using fin s' assms(1) cs by (simp add: remove_paths_counts)
  ultimately have "counts (snd (run_tests w config)) = (mw, mw, mw, mw)"
    by simp
  then show ?thesis
    using c by (simp add: counts_def)
qed

section \<open>Pauses, draws, scratch files and exceptions\<close>

subsection \<open>The pause after an attempt\<close>

lemma sleeps_append: "sleeps (xs @ ys) = sleeps xs @ sleeps ys"
  by (induction xs rule: sleeps.induct) simp_all

lemma pause_after_attempt:
  assumes "sftp_operation w config lp rn c pos s = (Inr stat, s')"
  shows "sleeps (trace s') = sleeps (trace s)
     @ (if 0 < sftp_sleep_interval config \<and> \<not> (c = None \<and> connect_raises w (clients s) \<noteq> None)
        then [sftp_sleep_interval config] else [])"
  using assms
  by (auto simp: sftp_operation_def transfer_def put_and_remove_def create_client_def
        tick_def log_def Let_def sleeps_append
        split: option.splits prod.splits sum.splits if_splits)

subsection \<open>The draws of a run\<close>

lemma create_random_zip_draw:
  "create_random_zip w d sz s = (None, s') \<Longrightarrow> urandom_sizes (trace s') = urandom_sizes (trace s) @ [sz]"
  by (auto simp: create_random_zip_def write_file_def log_def urandom_sizes_append
        split: write_result.splits if_splits)

lemma randint_draw:
  "randint (random_bits w i) (min_test_file_size_bytes config) (max_test_file_size_bytes config) = Inr sz
   \<Longrightarrow> sz = draw w config i"
  by (auto simp: randint_def draw_def split: if_splits)

lemma generate_draws:
  "generate w config dir is ps s = (None, ps', s')
   \<Longrightarrow> urandom_sizes (trace s') = urandom_sizes (trace s) @ map (draw w config) is"
proof (induction "is" arbitrary: ps s)
  case Nil
  then show ?case by simp
next
  case (Cons i rest)
  from generate_step[OF Cons.prems] obtain sz s1 where
    r: "randint (random_bits w i) (min_test_file_size_bytes config)
          (max_test_file_size_bytes config) = Inr sz" and
    z: "create_random_zip w (path_join dir (artifact_name i)) sz s = (None, s1)" and
    g: "generate w config dir rest (ps @ [(path_join dir (artifact_name i), artifact_name i)]) s1
       = (None, ps', s')"
    by blast
  show ?case
    using Cons.IH[OF g] create_random_zip_draw[OF z] randint_draw[OF r] by simp
qed

lemma create_client_draws:
  "create_client w config s = (r, s') \<Longrightarrow> urandom_sizes (trace s') = urandom_sizes (trace s)"
  by (auto simp: create_client_def tick_def log_def Let_def urandom_sizes_append
        split: option.splits)

lemma warm_up_draws:
  "warm_up w config n s = (r, s') \<Longrightarrow> urandom_sizes (trace s') = urandom_sizes (trace s)"
proof (induction n arbitrary: s r s')
  case 0
  then show ?case by simp
next
  case (Suc n)
  obtain r1 s1 where c: "create_client w config s = (r1, s1)"
    by (cases "create_client w config s")
  obtain r2 s2 where u: "warm_up w config n s1 = (r2, s2)"
    by (cases "warm_up w config n s1")
  have "s' = s1 \<or> s' = s2"
    using Suc.prems c u by (auto split: sum.splits)
  then show ?case
    using create_client_draws[OF c] Suc.IH[OF u] by auto
qed

lemma make_clients_draws:
  "make_clients w config mw s = (r, s') \<Longrightarrow> urandom_sizes (trace s') = urandom_sizes (trace s)"
  by (auto simp: make_clients_def split: if_splits prod.splits sum.splits dest: warm_up_draws)

lemma transfer_draws:
  "transfer w config lp rn fs c ct pos s = (r, s')
   \<Longrightarrow> urandom_sizes (trace s') = urandom_sizes (trace s)"
  by (auto simp: transfer_def put_and_remove_def tick_def log_def Let_def urandom_sizes_append
        split: option.splits prod.splits if_splits)

lemma sftp_operation_draws:
  "sftp_operation w config lp rn c pos s = (r, s')
   \<Longrightarrow> urandom_sizes (trace s') = urandom_sizes (trace s)"
  by (auto simp: sftp_operation_def Let_def split: option.splits prod.splits sum.splits
        dest!: create_client_draws transfer_draws)

lemma run_tasks_draws:
  "run_tasks w config cs mw idx ps s = (rs, s')
   \<Longrightarrow> urandom_sizes (trace s') = urandom_sizes (trace s)"
proof (induction ps arbitrary: idx s rs s')
  case Nil
  then show ?case by simp
next
  case (Cons p ps)
  obtain path nm where p: "p = (path, nm)" by (cases p)
  obtain r s1 where o: "sftp_operation w config path nm (cs ! (idx mod mw)) idx s = (r, s1)"
    by (cases "sftp_operation w config path nm (cs ! (idx mod mw)) idx s")
  obtain rs1 s2 where t: "run_tasks w config cs mw (Suc idx) ps s1 = (rs1, s2)"
    by (cases "run_tasks w config cs mw (Suc idx) ps s1")
  have "s' = s2"
    using Cons.prems p o t by simp
  then show ?case
    using Cons.IH[OF t] sftp_operation_draws[OF o] by simp
qed

lemma close_all_draws: "urandom_sizes (trace (close_all cs s)) = urandom_sizes (trace s)"
  by (induction cs s rule: close_all.induct) (simp_all add: log_def urandom_sizes_append)

lemma run_tests_draws:
  assumes "fst (run_tests w config) = Inr report"
  shows "urandom_sizes (trace (snd (run_tests w config)))
           = map (draw w config) [0..<nat (num_test_files config)]"
proof -
  from run_tests_Inr[OF assms] obtain dir ps s' where
    t: "try_body w config dir initial = (Inr report, ps, s')" and
    fin: "snd (run_tests w config) = remove_paths ps s'"
    by blast
  from try_body_Inr[OF t] obtain s1 mw cs s2 sts s3 where
    g: "generate w config dir [0..<nat (num_test_files config)] [] initial = (None, ps, s1)" and
    mc: "make_clients w config mw s1 = (Inr cs, s2)" and
    rt: "run_tasks w config cs mw 0 ps s2 = (map Inr sts, s3)" and
    s': "s' = (if keep_alive_enabled config \<noteq> 0 then close_all cs s3 else s3)"
    by blast
  have "urandom_sizes (trace s1) = map (draw w config) [0..<nat (num_test_files config)]"
    using generate_draws[OF g] by (simp add: initial_def)
  moreover have "urandom_sizes (trace s') = urandom_sizes (trace s1)"
    using make_clients_draws[OF mc] run_tasks_draws[OF rt] s' by (simp add: close_all_draws)
  ultimately show ?thesis
    using fin by (simp add: remove_paths_trace)
qed

subsection \<open>What the \<^verbatim>\<open>finally\<close> block removes\<close>

lemma remove_paths_files:
  "files (remove_paths ps s) = filter (\<lambda>e. fst e \<notin> fst ` set ps) (files s)"
proof (induction ps s rule: remove_paths.induct)
  case (1 s)
  then show ?case by simp
next
  case (2 path nm rest s)
  have absent: "\<not> exists_path s path \<Longrightarrow> path \<notin> fst ` set (files s)"
    by (simp add: exists_path_def map_of_eq_None_iff)
  show ?case
  proof (cases "exists_path s path")
    case True
    then show ?thesis
      using 2 by (auto simp: remove_file_def intro!: filter_cong)
  next
    case False
    then show ?thesis
      using 2 absent[OF False] by (auto intro!: filter_cong)
  qed
qed

lemma create_random_zip_listed:
  assumes "create_random_zip w d sz s = (r, s')" and "\<not> leaves_partial_file (zip_result w d)"
  shows "fst ` set (files s') \<subseteq> fst ` set (files s) \<union> (if r = None then {d} else {})"
  using assms
  by (auto simp: create_random_zip_def write_file_def log_def
        split: write_result.splits if_splits)

lemma generate_listed:
  assumes "\<forall>d. \<not> leaves_partial_file (zip_result w d)"
  shows "generate w config dir is ps s = (r, ps', s') \<Longrightarrow> fst ` set (files s) \<subseteq> fst ` set ps
         \<Longrightarrow> fst ` set (files s') \<subseteq> fst ` set ps'"
proof (induction "is" arbitrary: ps s)
  case Nil
  then show ?case by simp
next
  case (Cons i rest)
  let ?d = "path_join dir (artifact_name i)"
  show ?case
  proof (cases "randint (random_bits w i) (min_test_file_size_bytes config)
                  (max_test_file_size_bytes config)")
    case (Inl e)
    then show ?thesis using Cons.prems by simp
  next
    case (Inr sz)
    obtain r1 s1 where z: "create_random_zip w ?d sz s = (r1, s1)"
      by (cases "create_random_zip w ?d sz s")
    have l: "fst ` set (files s1) \<subseteq> fst ` set (files s) \<union> (if r1 = None then {?d} else {})"
      using create_random_zip_listed[OF z] assms by simp
    show ?thesis
    proof (cases r1)
      case None
      then have g: "generate w config dir rest (ps @ [(?d, artifact_name i)]) s1 = (r, ps', s')"
        using Cons.prems(1) Inr z by (simp add: Let_def)
      have "fst ` set (files s1) \<subseteq> fst ` set (ps @ [(?d, artifact_name i)])"
        using l None Cons.prems(2) by auto
      from Cons.IH[OF g this] show ?thesis .
    next
      case (Some e)
      then have "s' = s1" "ps' = ps"
        using Cons.prems(1) Inr z by (simp_all add: Let_def)
      then show ?thesis
        using l Some Cons.prems(2) by auto
    qed
  qed
qed

lemma close_all_files: "files (close_all cs s) = files s"
  by (induction cs s rule: close_all.induct) (simp_all add: log_def)

lemma try_body_files:
  assumes "try_body w config dir s = (r, ps, s')"
  shows "\<exists>e sg. generate w config dir [0..<nat (num_test_files config)] [] s = (e, ps, sg)
           \<and> files s' = files sg"
proof -
  obtain e ps1 s1 where
    g: "generate w config dir [0..<nat (num_test_files config)] [] s = (e, ps1, s1)"
    by (cases "generate w config dir [0..<nat (num_test_files config)] [] s")
  have mc: "\<And>mw r2 s2. make_clients w config mw s1 = (r2, s2) \<Longrightarrow> files s2 = files s1"
    by (rule make_clients_files)
  have rt: "\<And>cs mw qs rs s2 s3. run_tasks w config cs mw 0 qs s2 = (rs, s3) \<Longrightarrow> files s3 = files s2"
    using run_tasks_results by blast
  have "ps = ps1 \<and> files s' = files s1"
    using assms g
    by (auto simp: try_body_def Let_def close_all_files
          split: option.splits prod.splits sum.splits if_splits dest!: mc rt)
  then show ?thesis
    using g by auto
qed

lemma scratch_files_removed:
  assumes "\<forall>d. \<not> leaves_partial_file (zip_result w d)"
  shows "files (snd (run_tests w config)) = []"
proof (cases "mkdtemp_result w")
  case (Inl msg)
  then show ?thesis by (simp add: run_tests_def initial_def)
next
  case (Inr dir)
  obtain r ps s1 where t: "try_body w config dir initial = (r, ps, s1)"
    by (cases "try_body w config dir initial")
  from try_body_files[OF t] obtain e sg where
    g: "generate w config dir [0..<nat (num_test_files config)] [] initial = (e, ps, sg)" and
    f: "files s1 = files sg"
    by blast
  have "fst ` set (files sg) \<subseteq> fst ` set ps"
    using generate_listed[OF assms g] by (simp add: initial_def)
  then have "files (remove_paths ps s1) = []"
    using f by (auto simp: remove_paths_files filter_empty_conv)
  then show ?thesis
    using Inr t by (simp add: run_tests_def Let_def)
qed

subsection \<open>The exceptions that can leave a run\<close>

lemma generate_raises:
  "generate w config dir is ps s = (Some e, ps', s') \<Longrightarrow> site_of e \<in> {Randint, CreateZip}"
proof (induction "is" arbitrary: ps s)
  case Nil
  then show ?case by simp
next
  case (Cons i rest)
  show ?case
    using Cons.prems Cons.IH
    by (auto simp: Let_def randint_def create_random_zip_def
          split: sum.splits prod.splits option.splits if_splits write_result.splits)
qed

lemma warm_up_raises: "warm_up w config n s = (Inl e, s') \<Longrightarrow> site_of e = Connect"
proof (induction n arbitrary: s s')
  case 0
  then show ?case by simp
next
  case (Suc n)
  show ?case
    using Suc.prems Suc.IH
    by (auto simp: create_client_def Let_def split: sum.splits prod.splits option.splits)
qed

lemma sftp_operation_raises:
  "sftp_operation w config lp rn c pos s = (Inl e, s') \<Longrightarrow> site_of e \<in> {Getsize, OpenSftp}"
  by (auto simp: sftp_operation_def transfer_def Let_def
        split: option.splits prod.splits sum.splits)

lemma run_tasks_raises:
  "run_tasks w config cs mw idx ps s = (rs, s') \<Longrightarrow> Inl e \<in> set rs
   \<Longrightarrow> site_of e \<in> {Getsize, OpenSftp}"
proof (induction ps arbitrary: idx s rs s')
  case Nil
  then show ?case by simp
next
  case (Cons p ps)
  obtain path nm where p: "p = (path, nm)" by (cases p)
  obtain r s1 where o: "sftp_operation w config path nm (cs ! (idx mod mw)) idx s = (r, s1)"
    by (cases "sftp_operation w config path nm (cs ! (idx mod mw)) idx s")
  obtain rs1 s2 where t: "run_tasks w config cs mw (Suc idx) ps s1 = (rs1, s2)"
    by (cases "run_tasks w config cs mw (Suc idx) ps s1")
  have "rs = r # rs1"
    using Cons.prems(1) p o t by simp
  then have "r = Inl e \<or> Inl e \<in> set rs1"
    using Cons.prems(2) by auto
  then show ?case
    using sftp_operation_raises[of w config path nm "cs ! (idx mod mw)" idx s e s1] o
      Cons.IH[OF t] by auto
qed

lemma collect_raises: "collect rs report = Inl e \<Longrightarrow> Inl e \<in> set rs"
  by (induction rs report rule: collect.induct) simp_all

lemma try_body_raises:
  assumes "try_body w config dir s = (Inl e, ps, s')"
  shows "site_of e \<in> {Randint, CreateZip, CpuCount, Executor, Getsize, OpenSftp}
       \<or> site_of e = Connect \<and> keep_alive_enabled config \<noteq> 0"
proof -
  have co: "\<And>rs. collect (as_completed (completion w) 0 rs) [] = Inl e \<Longrightarrow> Inl e \<in> set rs"
    using collect_raises mset_as_completed by (metis set_mset_mset)
  show ?thesis
    using assms
    by (auto simp: try_body_def make_clients_def Let_def
          split: option.splits prod.splits sum.splits if_splits
          dest!: generate_raises warm_up_raises co dest: run_tasks_raises)
qed

lemma captured_errors:
  assumes "fst (run_tests w config) = Inl e"
  shows "site_of e \<noteq> Put \<and> site_of e \<noteq> Remove
       \<and> (site_of e = Connect \<longrightarrow> keep_alive_enabled config \<noteq> 0)"
proof (cases "mkdtemp_result w")
  case (Inl msg)
  then show ?thesis using assms by (auto simp: run_tests_def)
next
  case (Inr dir)
  obtain r ps s1 where t: "try_body w config dir initial = (r, ps, s1)"
    by (cases "try_body w config dir initial")
  have "e = Raised Rmdir ''Directory not empty'' \<or> r = Inl e"
    using assms Inr t by (auto simp: run_tests_def Let_def split: if_splits)
  then show ?thesis
    using try_body_raises[of w config dir initial e ps s1] t by auto
qed

section \<open>The life of a fresh session\<close>

lemma client_events_append: "client_events c (xs @ ys) = client_events c xs @ client_events c ys"
  by (simp add: client_events_def)

lemma create_random_zip_client_events:
  "create_random_zip w d sz s = (r, s') \<Longrightarrow> client_events c (trace s') = client_events c (trace s)"
  by (auto simp: create_random_zip_def write_file_def log_def client_events_def
        split: write_result.splits if_splits)

lemma generate_client_events:
  "generate w config dir is ps s = (r, ps', s')
   \<Longrightarrow> client_events c (trace s') = client_events c (trace s)"
proof (induction "is" arbitrary: ps s)
  case Nil
  then show ?case by simp
next
  case (Cons i rest)
  show ?case
  proof (cases "randint (random_bits w i) (min_test_file_size_bytes config)
                  (max_test_file_size_bytes config)")
    case (Inl e)
    then show ?thesis using Cons.prems by simp
  next
    case (Inr sz)
    obtain r1 s1 where z: "create_random_zip w (path_join dir (artifact_name i)) sz s = (r1, s1)"
      by (cases "create_random_zip w (path_join dir (artifact_name i)) sz s")
    show ?thesis
    proof (cases r1)
      case None
      then have "generate w config dir rest
                   (ps @ [(path_join dir (artifact_name i), artifact_name i)]) s1 = (r, ps', s')"
        using Cons.prems Inr z by (simp add: Let_def)
      from Cons.IH[OF this] create_random_zip_client_events[OF z] show ?thesis by simp
    next
      case (Some e)
      then have "s' = s1"
        using Cons.prems Inr z by (simp add: Let_def)
      then show ?thesis using create_random_zip_client_events[OF z] by simp
    qed
  qed
qed

lemma sftp_operation_fresh_events:
  assumes "sftp_operation w config lp rn None pos s = (Inr stat, s')"
    and "keep_alive_enabled config = 0"
  shows "client_events c (trace s')
           = client_events c (trace s)
             @ (if c = clients s then session_events w config lp rn pos (clients s) else [])"
  using assms
  by (auto simp: sftp_operation_def transfer_def put_and_remove_def create_client_def
        tick_def log_def Let_def client_events_def session_events_def timeout_argument_def
        split: option.splits prod.splits sum.splits if_splits)

lemma run_tasks_fresh_events:
  assumes "run_tasks w config (replicate mw None) mw idx ps s = (map Inr sts, s')"
    and "keep_alive_enabled config = 0" and "0 < mw" and "clients s = idx"
  shows "client_events c (trace s')
           = client_events c (trace s)
             @ (if idx \<le> c \<and> c < idx + length ps
                then session_events w config (fst (ps ! (c - idx))) (snd (ps ! (c - idx))) c c
                else [])"
  using assms(1,4)
proof (induction ps arbitrary: idx s sts s')
  case Nil
  then show ?case by auto
next
  case (Cons p ps)
  obtain path nm where p: "p = (path, nm)" by (cases p)
  have none: "replicate mw None ! (idx mod mw) = (None :: nat option)"
    using assms(3) by simp
  obtain r s1 where o: "sftp_operation w config path nm None idx s = (r, s1)"
    by (cases "sftp_operation w config path nm None idx s")
  obtain rs1 s2 where t: "run_tasks w config (replicate mw None) mw (Suc idx) ps s1 = (rs1, s2)"
    by (cases "run_tasks w config (replicate mw None) mw (Suc idx) ps s1")
  have e: "map Inr sts = r # rs1" and s': "s' = s2"
    using Cons.prems(1) p o t none by simp_all
  then obtain stat sts1 where r: "r = Inr stat" and rs1: "rs1 = map Inr sts1"
    by (cases sts) auto
  have o': "sftp_operation w config path nm None idx s = (Inr stat, s1)"
    using o r by simp
  have c1: "clients s1 = Suc idx"
    using sftp_operation_fresh_counts[OF o' assms(2)] Cons.prems(2) by (simp add: counts_def)
  have e1: "client_events c (trace s1)
              = client_events c (trace s)
                @ (if c = idx then session_events w config path nm idx idx else [])"
    using sftp_operation_fresh_events[OF o' assms(2), of c] Cons.prems(2) by simp
  have e2: "client_events c (trace s2)
              = client_events c (trace s1)
                @ (if Suc idx \<le> c \<and> c < Suc idx + length ps
                   then session_events w config (fst (ps ! (c - Suc idx)))
                          (snd (ps ! (c - Suc idx))) c c
                   else [])"
    using Cons.IH[of "Suc idx" s1 sts1 s2] t rs1 c1 by simp
  show ?case
  proof (cases "c = idx")
    case True
    then show ?thesis
      using e1 e2 s' p by simp
  next
    case False
    then have "idx \<le> c \<longleftrightarrow> Suc idx \<le> c"
      by auto
    moreover have "Suc idx \<le> c \<Longrightarrow> (p # ps) ! (c - idx) = ps ! (c - Suc idx)"
      by (simp add: Suc_diff_le)
    ultimately show ?thesis
      using e1 e2 s' False by auto
  qed
qed

lemma closes_of_client_events: "closes_of c tr = closes_of c (client_events c tr)"
proof -
  have "filter (\<lambda>e. e = EvClientClose c) (filter (\<lambda>e. client_of e = Some c) tr)
          = filter (\<lambda>e. e = EvClientClose c) tr"
    by (auto simp: filter_filter intro!: filter_cong)
  then show ?thesis
    by (simp add: closes_of_def client_events_def)
qed

lemma closes_of_session_events:
  "closes_of c (session_events w config lp rn pos c)
     = (if connect_raises w c = None then 1 else 0)"
  by (simp add: closes_of_def session_events_def split: option.splits)

lemma last_session_events:
  "connect_raises w c = None \<Longrightarrow> last (session_events w config lp rn pos c) = EvClientClose c"
  by (simp add: session_events_def split: option.splits)

section \<open>The claims\<close>

subsection \<open>C10: the retry-attempts option\<close>

text \<open>
  C10. Two configurations that differ only in \<^verbatim>\<open>retry_attempts\<close> give the same run and
  the same single transfer: the same result, the same calls on the outside world in the
  same order, the same clock and files. No value of the option makes a transfer run
  again.
\<close>

theorem retry_attempts_has_no_effect:
  "run_tests w (config\<lparr>retry_attempts := r\<rparr>) = run_tests w config
   \<and> sftp_operation w (config\<lparr>retry_attempts := r\<rparr>) local_path remote_name client position s
       = sftp_operation w config local_path remote_name client position s"
proof
  show "run_tests w (config\<lparr>retry_attempts := r\<rparr>) = run_tests w config"
    by (simp add: run_tests_def try_body_retry split: sum.splits)
next
  show "sftp_operation w (config\<lparr>retry_attempts := r\<rparr>) local_path remote_name client position s
       = sftp_operation w config local_path remote_name client position s"
    by (rule sftp_operation_retry)
qed

theorem retry_attempts_has_no_effect_witness:
  "run_tests upload_fails (SFTPConfig_init\<lparr>retry_attempts := 3\<rparr>)
     = run_tests upload_fails SFTPConfig_init
   \<and> fst (run_tests upload_fails (SFTPConfig_init\<lparr>retry_attempts := 3\<rparr>))
     = Inr [\<lparr>name = ''test_0.zip'', size_bytes = 6122, connect_time = 2, transfer_time = 3,
             success = False, error = Some ''Failure''\<rparr>]
   \<and> trace (snd (run_tests upload_fails (SFTPConfig_init\<lparr>retry_attempts := 3\<rparr>)))
     = [EvUrandom 6003, EvConnect 0 (Some 20) True, EvOpenSftp 0 True,
        EvPut 0 ''/tmp/tmpk3/test_0.zip'' ''/test_0.zip'' False,
        EvSftpClose 0, EvClientClose 0]"
proof -
  have same: "run_tests upload_fails (SFTPConfig_init\<lparr>retry_attempts := 3\<rparr>)
                = run_tests upload_fails SFTPConfig_init"
    using retry_attempts_has_no_effect
      [where w = upload_fails and config = SFTPConfig_init and r = 3 and local_path = "''a''"
         and remote_name = "''b''" and client = None and position = 0 and s = initial]
    by simp
  show ?thesis
    unfolding same by (simp add: model_defs)
qed

subsection \<open>C9: the connect timeout\<close>

text \<open>
  C9, as amended. Every \<^verbatim>\<open>client.connect\<close> call of a run is given the same timeout
  argument: no timeout (\<^verbatim>\<open>None\<close>) exactly when \<^verbatim>\<open>connect_timeout_seconds\<close> is -1, and
  otherwise the configured value itself, also when that value is another negative number.
\<close>

theorem connect_timeout_disabled_only_by_minus_one:
  "\<forall>t \<in> set (connect_timeouts (trace (snd (run_tests w config)))).
      (t = None \<longleftrightarrow> connect_timeout_seconds config = - 1)
    \<and> (connect_timeout_seconds config \<noteq> - 1 \<longrightarrow> t = Some (connect_timeout_seconds config))"
proof
  fix t
  assume "t \<in> set (connect_timeouts (trace (snd (run_tests w config))))"
  then have "t = timeout_argument config"
    by (rule event_ok_timeouts[OF run_tests_ok])
  then show "(t = None \<longleftrightarrow> connect_timeout_seconds config = - 1)
    \<and> (connect_timeout_seconds config \<noteq> - 1 \<longrightarrow> t = Some (connect_timeout_seconds config))"
    by (simp add: timeout_argument_def)
qed

theorem connect_timeout_disabled_only_by_minus_one_witness:
  "connect_timeouts (trace (snd (run_tests calm SFTPConfig_init))) = [Some 20]
   \<and> connect_timeout_seconds SFTPConfig_init = 20
   \<and> connect_timeouts
        (trace (snd (run_tests calm (SFTPConfig_init\<lparr>connect_timeout_seconds := - 1\<rparr>)))) = [None]"
proof -
  have a: "connect_timeouts (trace (snd (run_tests calm SFTPConfig_init))) = [Some 20]"
    by (simp add: model_defs)
  have b: "connect_timeouts
        (trace (snd (run_tests calm (SFTPConfig_init\<lparr>connect_timeout_seconds := - 1\<rparr>)))) = [None]"
    by (simp add: model_defs)
  have "Some 20 \<in> set (connect_timeouts (trace (snd (run_tests calm SFTPConfig_init))))"
    using a by simp
  then have "connect_timeout_seconds SFTPConfig_init = 20"
    using connect_timeout_disabled_only_by_minus_one[of calm SFTPConfig_init] by auto
  then show ?thesis
    using a b by simp
qed

text \<open>
  The claim as stated fails at \<^verbatim>\<open>connect_timeout_seconds = -2\<close>: the connect call is given
  the timeout -2, not \<^verbatim>\<open>None\<close>.
\<close>

theorem negative_connect_timeout_counterexample:
  "connect_timeouts
     (trace (snd (run_tests calm (SFTPConfig_init\<lparr>connect_timeout_seconds := - 2\<rparr>))))
     = [Some (- 2)]"
  by (simp add: model_defs)

subsection \<open>C4: what the transfer time covers\<close>

text \<open>
  C4, as amended. The transfer time of a \<^verbatim>\<open>FileStat\<close> runs from the moment the SFTP
  channel is open to the end of the \<^verbatim>\<open>try\<close> block: it is the time of the upload plus the
  time of the remote delete when the upload succeeded, the time of the upload alone
  when the upload raised, and 0 when the connect of a fresh session raised. The connect
  is not part of it.
\<close>

theorem transfer_time_covers_upload_and_delete:
  assumes "sftp_operation w config local_path remote_name client position s = (Inr stat, s')"
  shows "transfer_time stat =
     (if client = None \<and> connect_raises w (clients s) \<noteq> None then 0
      else int (put_dur w position)
           + (if put_raises w position = None then int (remove_dur w position) else 0))"
  using assms
  by (auto simp: sftp_operation_def transfer_def put_and_remove_def create_client_def
        tick_def log_def Let_def split: option.splits prod.splits sum.splits if_splits)

theorem transfer_time_covers_upload_and_delete_witness:
  "sftp_operation calm SFTPConfig_init ''/tmp/tmpk3/test_0.zip'' ''test_0.zip'' None 0
      (write_file ''/tmp/tmpk3/test_0.zip'' 6122 initial)
    = (Inr \<lparr>name = ''test_0.zip'', size_bytes = 6122, connect_time = 2, transfer_time = 8,
             success = True, error = None\<rparr>,
       \<lparr>clock = 10, files = [(''/tmp/tmpk3/test_0.zip'', 6122)],
        trace = [EvConnect 0 (Some 20) True, EvOpenSftp 0 True,
                 EvPut 0 ''/tmp/tmpk3/test_0.zip'' ''/test_0.zip'' True,
                 EvRemove 0 ''/test_0.zip'' True, EvSftpClose 0, EvClientClose 0],
        clients = 1\<rparr>)
   \<and> (8 :: int) = int (put_dur calm 0) + int (remove_dur calm 0)"
proof -
  have run: "sftp_operation calm SFTPConfig_init ''/tmp/tmpk3/test_0.zip'' ''test_0.zip'' None 0
      (write_file ''/tmp/tmpk3/test_0.zip'' 6122 initial)
    = (Inr \<lparr>name = ''test_0.zip'', size_bytes = 6122, connect_time = 2, transfer_time = 8,
             success = True, error = None\<rparr>,
       \<lparr>clock = 10, files = [(''/tmp/tmpk3/test_0.zip'', 6122)],
        trace = [EvConnect 0 (Some 20) True, EvOpenSftp 0 True,
                 EvPut 0 ''/tmp/tmpk3/test_0.zip'' ''/test_0.zip'' True,
                 EvRemove 0 ''/test_0.zip'' True, EvSftpClose 0, EvClientClose 0],
        clients = 1\<rparr>)"
    by (simp add: model_defs)
  show ?thesis
    using run transfer_time_covers_upload_and_delete[OF run]
    by (simp add: calm_def write_file_def initial_def)
qed

text \<open>
  The claim as stated fails on a run of one artifact in the world \<open>calm\<close>: the upload
  takes 3 seconds, the remote delete 5, and the transfer time recorded is 8.
\<close>

theorem transfer_time_upload_only_counterexample:
  "fst (run_tests calm SFTPConfig_init)
     = Inr [\<lparr>name = ''test_0.zip'', size_bytes = 6122, connect_time = 2, transfer_time = 8,
             success = True, error = None\<rparr>]
   \<and> put_dur calm 0 = 3 \<and> remove_dur calm 0 = 5"
  by (simp add: model_defs)

subsection \<open>C2: one outcome per artifact\<close>

text \<open>
  C2. When \<^verbatim>\<open>run_tests\<close> returns a report, the report has exactly \<^verbatim>\<open>num_test_files\<close>
  entries, and their names are the names of the dispatched artifacts, \<^verbatim>\<open>test_0.zip\<close> to
  \<^verbatim>\<open>test_{N-1}.zip\<close>, each exactly once: the two lists of names are equal as multisets, and
  no name occurs twice. The order is the order of completion.
\<close>

theorem one_outcome_per_artifact:
  assumes "fst (run_tests w config) = Inr report"
  shows "length report = nat (num_test_files config)
       \<and> mset (map name report) = mset (map artifact_name [0..<nat (num_test_files config)])
       \<and> distinct (map name report)"
proof -
  from run_tests_Inr[OF assms] obtain dir ps s1 where
    t: "try_body w config dir initial = (Inr report, ps, s1)"
    by blast
  from report_entries[OF t]
  have len: "length report = nat (num_test_files config)" and
    names: "mset (map name report) = mset (map artifact_name [0..<nat (num_test_files config)])"
    by simp_all
  have "distinct (map name report)"
    using mset_eq_imp_distinct_iff[OF names] distinct_artifact_names by simp
  with len names show ?thesis by simp
qed

theorem one_outcome_per_artifact_witness:
  "fst (run_tests last_first (SFTPConfig_init\<lparr>num_test_files := 3, sftp_threads := 2\<rparr>))
     = Inr [\<lparr>name = ''test_1.zip'', size_bytes = 6122, connect_time = 2, transfer_time = 8,
             success = True, error = None\<rparr>,
            \<lparr>name = ''test_2.zip'', size_bytes = 6122, connect_time = 2, transfer_time = 8,
             success = True, error = None\<rparr>,
            \<lparr>name = ''test_0.zip'', size_bytes = 6122, connect_time = 2, transfer_time = 8,
             success = True, error = None\<rparr>]
   \<and> mset [''test_1.zip'', ''test_2.zip'', ''test_0.zip''] = mset (map artifact_name [0..<3])"
proof -
  have run: "fst (run_tests last_first (SFTPConfig_init\<lparr>num_test_files := 3, sftp_threads := 2\<rparr>))
     = Inr [\<lparr>name = ''test_1.zip'', size_bytes = 6122, connect_time = 2, transfer_time = 8,
             success = True, error = None\<rparr>,
            \<lparr>name = ''test_2.zip'', size_bytes = 6122, connect_time = 2, transfer_time = 8,
             success = True, error = None\<rparr>,
            \<lparr>name = ''test_0.zip'', size_bytes = 6122, connect_time = 2, transfer_time = 8,
             success = True, error = None\<rparr>]"
    by (simp add: model_defs)
  show ?thesis
    using run one_outcome_per_artifact[OF run] by (simp add: SFTPConfig_init_def)
qed

subsection \<open>C3: the size of an artifact\<close>

text \<open>
  C3, as amended. The number of random bytes asked of \<^verbatim>\<open>os.urandom\<close> for an artifact
  lies between \<^verbatim>\<open>min_test_file_size_bytes\<close> and \<^verbatim>\<open>max_test_file_size_bytes\<close>, and a run that
  returns a report has made one draw per artifact, each from the generator's output for
  that artifact. The size recorded in a \<^verbatim>\<open>FileStat\<close> is another number:
  the size on disk of the archive that wraps those bytes, which is the 114 bytes of the
  ZIP headers plus the length of the compressed stream, and which the configured maximum
  does not bound.
\<close>

theorem payload_within_bounds_recorded_size_is_archive:
  "(\<forall>n \<in> set (urandom_sizes (trace (snd (run_tests w config)))).
      min_test_file_size_bytes config \<le> n \<and> n \<le> max_test_file_size_bytes config)
   \<and> (\<forall>report. fst (run_tests w config) = Inr report \<longrightarrow>
         urandom_sizes (trace (snd (run_tests w config)))
           = map (draw w config) [0..<nat (num_test_files config)])
   \<and> (\<forall>report dir. fst (run_tests w config) = Inr report \<and> mkdtemp_result w = Inr dir \<longrightarrow>
         (\<forall>stat \<in> set report.
            size_bytes stat = 114 + int (stream_len w (path_join dir (name stat)))))"
proof -
  have bounds: "\<forall>n \<in> set (urandom_sizes (trace (snd (run_tests w config)))).
      min_test_file_size_bytes config \<le> n \<and> n \<le> max_test_file_size_bytes config"
    using event_ok_urandom[OF run_tests_ok] by blast
  have draws: "\<forall>report. fst (run_tests w config) = Inr report \<longrightarrow>
         urandom_sizes (trace (snd (run_tests w config)))
           = map (draw w config) [0..<nat (num_test_files config)]"
    using run_tests_draws by blast
  have recorded: "\<forall>report dir. fst (run_tests w config) = Inr report \<and> mkdtemp_result w = Inr dir \<longrightarrow>
         (\<forall>stat \<in> set report.
            size_bytes stat = 114 + int (stream_len w (path_join dir (name stat))))"
  proof (intro allI impI ballI)
    fix report dir stat
    assume h: "fst (run_tests w config) = Inr report \<and> mkdtemp_result w = Inr dir"
      and st: "stat \<in> set report"
    from run_tests_Inr[of w config report] h obtain ps s1 where
      t: "try_body w config dir initial = (Inr report, ps, s1)"
      by auto
    from report_entries[OF t] st
    show "size_bytes stat = 114 + int (stream_len w (path_join dir (name stat)))"
      by (simp add: archive_size_def zip_overhead_def)
  qed
  from bounds draws recorded show ?thesis by blast
qed

theorem payload_within_bounds_recorded_size_is_archive_witness:
  "urandom_sizes (trace (snd (run_tests calm SFTPConfig_init))) = [6003]
   \<and> min_test_file_size_bytes SFTPConfig_init \<le> 6003
   \<and> 6003 \<le> max_test_file_size_bytes SFTPConfig_init
   \<and> fst (run_tests calm SFTPConfig_init)
       = Inr [\<lparr>name = ''test_0.zip'', size_bytes = 6122, connect_time = 2, transfer_time = 8,
               success = True, error = None\<rparr>]
   \<and> map (draw calm SFTPConfig_init) [0..<1] = [6003]
   \<and> (6122 :: int) = 114 + int (stream_len calm (path_join ''/tmp/tmpk3'' ''test_0.zip''))"
proof -
  have draws: "urandom_sizes (trace (snd (run_tests calm SFTPConfig_init))) = [6003]"
    by (simp add: model_defs)
  have run: "fst (run_tests calm SFTPConfig_init)
       = Inr [\<lparr>name = ''test_0.zip'', size_bytes = 6122, connect_time = 2, transfer_time = 8,
               success = True, error = None\<rparr>]"
    by (simp add: model_defs)
  have dir: "mkdtemp_result calm = Inr ''/tmp/tmpk3''"
    by (simp add: calm_def)
  show ?thesis
    using payload_within_bounds_recorded_size_is_archive[of calm SFTPConfig_init] draws run dir
    by (simp add: SFTPConfig_init_def calm_def path_join_def draw_def)
qed

text \<open>
  The claim as stated fails on a run with both bounds at 50 bytes: 50 random bytes are
  drawn, and the size recorded for the artifact is 169, above the maximum.
\<close>

theorem recorded_size_above_maximum_counterexample:
  "fst (run_tests tiny (SFTPConfig_init\<lparr>min_test_file_size_bytes := 50,
                                        max_test_file_size_bytes := 50\<rparr>))
     = Inr [\<lparr>name = ''test_0.zip'', size_bytes = 169, connect_time = 2, transfer_time = 8,
             success = True, error = None\<rparr>]
   \<and> urandom_sizes (trace (snd (run_tests tiny
         (SFTPConfig_init\<lparr>min_test_file_size_bytes := 50, max_test_file_size_bytes := 50\<rparr>))))
     = [50]
   \<and> max_test_file_size_bytes
         (SFTPConfig_init\<lparr>min_test_file_size_bytes := 50, max_test_file_size_bytes := 50\<rparr>) = 50"
  by (simp add: model_defs)

subsection \<open>C5: sessions without keep-alive\<close>

text \<open>
  C5, as amended. In a run without keep-alive that returns a report, every artifact
  makes exactly one connect call, \<^verbatim>\<open>num_test_files\<close> in all; a session is opened for the
  artifacts whose connect returns, and every session opened is closed exactly once, after
  that artifact's upload and delete, whether they succeeded or raised. A connect that
  raises leaves no session to close: the sessions closed are as many as the sessions
  opened, and as many as the artifacts only when no connect raises.

  Client \<open>c\<close> is the session of artifact \<open>c\<close>. The theorem gives the counts, then for each
  client the number of its closes (one when its connect returned, none otherwise), the
  whole sequence of calls on it (its connect, the channel, the upload of that artifact,
  the delete, the close of the channel, the close of the client), and that the close of
  the client is the last of them.
\<close>

theorem fresh_sessions_opened_and_closed:
  assumes "keep_alive_enabled config = 0" and "fst (run_tests w config) = Inr report"
  shows "connect_calls (trace (snd (run_tests w config))) = nat (num_test_files config)
       \<and> sessions_opened (trace (snd (run_tests w config)))
           = length (filter (\<lambda>i. connect_raises w i = None) [0..<nat (num_test_files config)])
       \<and> sessions_closed (trace (snd (run_tests w config)))
           = sessions_opened (trace (snd (run_tests w config)))
       \<and> (\<forall>c. closes_of c (trace (snd (run_tests w config)))
                 = (if c < nat (num_test_files config) \<and> connect_raises w c = None
                    then 1 else 0))
       \<and> (\<forall>c dir. mkdtemp_result w = Inr dir \<longrightarrow>
              client_events c (trace (snd (run_tests w config)))
                = (if c < nat (num_test_files config)
                   then session_events w config (path_join dir (artifact_name c))
                          (artifact_name c) c c
                   else []))
       \<and> (\<forall>c. c < nat (num_test_files config) \<and> connect_raises w c = None \<longrightarrow>
              last (client_events c (trace (snd (run_tests w config)))) = EvClientClose c)"
proof -
  let ?n = "nat (num_test_files config)"
  let ?tr = "trace (snd (run_tests w config))"
  from run_tests_Inr[OF assms(2)] obtain dir ps s' where
    dir: "mkdtemp_result w = Inr dir" and
    t: "try_body w config dir initial = (Inr report, ps, s')" and
    fin: "snd (run_tests w config) = remove_paths ps s'"
    by blast
  from try_body_Inr[OF t] obtain s1 mw cs s2 sts s3 where
    g: "generate w config dir [0..<?n] [] initial = (None, ps, s1)" and
    mw: "0 < mw" and
    mc: "make_clients w config mw s1 = (Inr cs, s2)" and
    rt: "run_tasks w config cs mw 0 ps s2 = (map Inr sts, s3)" and
    s': "s' = (if keep_alive_enabled config \<noteq> 0 then close_all cs s3 else s3)"
    by blast
  have ps: "ps = map (\<lambda>i. (path_join dir (artifact_name i), artifact_name i)) [0..<?n]"
    using generate_paths[OF g] by simp
  then have len: "length ps = ?n"
    by simp
  have k1: "counts s1 = (0, 0, 0, 0)"
    using generate_counts[OF g] by (simp add: counts_def initial_def)
  have cs: "cs = replicate mw None" and s2: "s2 = s1"
    using mc assms(1) by (simp_all add: make_clients_def)
  have k3: "counts s3 = (length ps, sessions_granted w 0 (length ps),
                         sessions_granted w 0 (length ps), length ps)"
    using run_tasks_fresh_counts[OF rt[unfolded cs] assms(1) mw] k1 s2
    by (simp add: counts_def)
  have tr: "?tr = trace s3"
    using fin s' assms(1) by (simp add: remove_paths_trace)
  have "counts (snd (run_tests w config)) = counts s3"
    using fin s' assms(1) by (simp add: remove_paths_counts)
  then have numbers: "connect_calls ?tr = ?n
       \<and> sessions_opened ?tr = length (filter (\<lambda>i. connect_raises w i = None) [0..<?n])
       \<and> sessions_closed ?tr = sessions_opened ?tr"
    using k3 len by (simp add: counts_def sessions_granted_def)
  have life: "client_events c ?tr
                = (if c < ?n
                   then session_events w config (path_join dir (artifact_name c))
                          (artifact_name c) c c
                   else [])" for c
  proof -
    have c1: "clients s1 = 0"
      using k1 by (simp add: counts_def)
    have e1: "client_events c (trace s1) = []"
      using generate_client_events[OF g, of c] by (simp add: initial_def client_events_def)
    have "client_events c (trace s3)
            = (if c < length ps
               then session_events w config (fst (ps ! c)) (snd (ps ! c)) c c else [])"
      using run_tasks_fresh_events[OF rt[unfolded cs] assms(1) mw, of c] c1 e1 s2 by simp
    then show ?thesis
      using tr ps by simp
  qed
  have closes: "closes_of c ?tr = (if c < ?n \<and> connect_raises w c = None then 1 else 0)" for c
  proof -
    have proj: "closes_of c ?tr = closes_of c (client_events c ?tr)"
      by (rule closes_of_client_events)
    show ?thesis
    proof (cases "c < ?n")
      case True
      then show ?thesis
        using proj life[of c] by (simp add: closes_of_session_events)
    next
      case False
      then show ?thesis
        using proj life[of c] by (simp add: closes_of_def)
    qed
  qed
  have lives: "\<forall>c d. mkdtemp_result w = Inr d \<longrightarrow>
              client_events c ?tr
                = (if c < ?n
                   then session_events w config (path_join d (artifact_name c))
                          (artifact_name c) c c
                   else [])"
    using life dir by simp
  have lasts: "\<forall>c. c < ?n \<and> connect_raises w c = None \<longrightarrow>
                 last (client_events c ?tr) = EvClientClose c"
    using life last_session_events by simp
  from numbers closes lives lasts show ?thesis
    by blast
qed

theorem fresh_sessions_opened_and_closed_witness:
  "keep_alive_enabled (SFTPConfig_init\<lparr>num_test_files := 3\<rparr>) = 0
   \<and> map success (projr (fst (run_tests flaky (SFTPConfig_init\<lparr>num_test_files := 3\<rparr>))))
       = [True, True, False]
   \<and> connect_calls (trace (snd (run_tests flaky (SFTPConfig_init\<lparr>num_test_files := 3\<rparr>)))) = 3
   \<and> sessions_opened (trace (snd (run_tests flaky (SFTPConfig_init\<lparr>num_test_files := 3\<rparr>)))) = 2
   \<and> sessions_closed (trace (snd (run_tests flaky (SFTPConfig_init\<lparr>num_test_files := 3\<rparr>)))) = 2
   \<and> closes_of 0 (trace (snd (run_tests flaky (SFTPConfig_init\<lparr>num_test_files := 3\<rparr>)))) = 1
   \<and> closes_of 1 (trace (snd (run_tests flaky (SFTPConfig_init\<lparr>num_test_files := 3\<rparr>)))) = 0
   \<and> client_events 2 (trace (snd (run_tests flaky (SFTPConfig_init\<lparr>num_test_files := 3\<rparr>))))
       = [EvConnect 2 (Some 20) True, EvOpenSftp 2 True,
          EvPut 2 ''/tmp/tmpk3/test_2.zip'' ''/test_2.zip'' True,
          EvRemove 2 ''/test_2.zip'' True, EvSftpClose 2, EvClientClose 2]
   \<and> client_events 1 (trace (snd (run_tests flaky (SFTPConfig_init\<lparr>num_test_files := 3\<rparr>))))
       = [EvConnect 1 (Some 20) False]"
proof -
  let ?config = "SFTPConfig_init\<lparr>num_test_files := 3\<rparr>"
  let ?tr = "trace (snd (run_tests flaky ?config))"
  have ka: "keep_alive_enabled ?config = 0"
    by (simp add: SFTPConfig_init_def)
  have n: "nat (num_test_files ?config) = 3"
    by (simp add: SFTPConfig_init_def)
  have run: "fst (run_tests flaky ?config)
     = Inr [\<lparr>name = ''test_0.zip'', size_bytes = 6122, connect_time = 2, transfer_time = 8,
             success = True, error = None\<rparr>,
            \<lparr>name = ''test_2.zip'', size_bytes = 6122, connect_time = 2, transfer_time = 8,
             success = True, error = None\<rparr>,
            \<lparr>name = ''test_1.zip'', size_bytes = 6122, connect_time = 2, transfer_time = 0,
             success = False, error = Some ''timed out''\<rparr>]"
    by (simp add: model_defs)
  have granted: "length (filter (\<lambda>i. connect_raises flaky i = None) [0..<3]) = 2"
    by (simp add: flaky_def calm_def upt_conv_Cons)
  have dir: "mkdtemp_result flaky = Inr ''/tmp/tmpk3''"
    by (simp add: flaky_def calm_def)
  have c0: "connect_raises flaky 0 = None" and c1: "connect_raises flaky 1 = Some ''timed out''"
    and c2: "connect_raises flaky 2 = None"
    by (simp_all add: flaky_def calm_def)
  note all = fresh_sessions_opened_and_closed[OF ka run, unfolded n]
  have numbers: "connect_calls ?tr = 3 \<and> sessions_opened ?tr = 2 \<and> sessions_closed ?tr = 2"
    using all granted by simp
  have closes: "closes_of 0 ?tr = 1 \<and> closes_of 1 ?tr = 0"
    using all c0 c1 by simp
  have "client_events 2 ?tr
          = session_events flaky ?config (path_join ''/tmp/tmpk3'' (artifact_name 2))
              (artifact_name 2) 2 2"
    using all dir by simp
  then have life2: "client_events 2 ?tr
       = [EvConnect 2 (Some 20) True, EvOpenSftp 2 True,
          EvPut 2 ''/tmp/tmpk3/test_2.zip'' ''/test_2.zip'' True,
          EvRemove 2 ''/test_2.zip'' True, EvSftpClose 2, EvClientClose 2]"
    by (simp add: session_events_def timeout_argument_def model_defs)
  have "client_events 1 ?tr
          = session_events flaky ?config (path_join ''/tmp/tmpk3'' (artifact_name 1))
              (artifact_name 1) 1 1"
    using all dir by simp
  then have life1: "client_events 1 ?tr = [EvConnect 1 (Some 20) False]"
    by (simp add: session_events_def timeout_argument_def model_defs)
  show ?thesis
    using ka run numbers closes life2 life1 by simp
qed

text \<open>
  The claim as stated fails on a run of one artifact whose connect is refused: the run
  returns its report, one connect call was made, no session was opened and none closed.
\<close>

theorem refused_connect_closes_nothing_counterexample:
  "run_tests refused SFTPConfig_init
     = (Inr [\<lparr>name = ''test_0.zip'', size_bytes = 6122, connect_time = 2, transfer_time = 0,
              success = False, error = Some ''Connection refused''\<rparr>],
        \<lparr>clock = 2, files = [],
         trace = [EvUrandom 6003, EvConnect 0 (Some 20) False], clients = 1\<rparr>)
   \<and> keep_alive_enabled SFTPConfig_init = 0 \<and> num_test_files SFTPConfig_init = 1
   \<and> sessions_closed [EvUrandom 6003, EvConnect 0 (Some 20) False] = 0"
  by (simp add: model_defs)

subsection \<open>C1: which exceptions leave a run\<close>

text \<open>
  C1. The claim fails on the code. \<^verbatim>\<open>client.open_sftp()\<close> stands outside every \<^verbatim>\<open>try\<close>
  of \<^verbatim>\<open>sftp_operation\<close>, and the connects that warm up the pooled sessions stand outside
  every \<^verbatim>\<open>try\<close> of \<^verbatim>\<open>run_tests\<close>: an exception of either leaves \<^verbatim>\<open>run_tests\<close>, and no
  report is returned. Neither is a scratch directory or payload write failure. The
  exceptions of \<^verbatim>\<open>put\<close> and \<^verbatim>\<open>remove\<close>, and of the connect of a fresh session, never leave a
  run (lemma \<open>captured_errors\<close>).
\<close>

theorem channel_and_warm_up_errors_leave_run_tests:
  "fst (run_tests no_channel SFTPConfig_init) = Inl (Raised OpenSftp ''Channel closed'')
   \<and> \<not> is_setup_error (Raised OpenSftp ''Channel closed'')
   \<and> fst (run_tests refused (SFTPConfig_init\<lparr>keep_alive_enabled := 1\<rparr>))
       = Inl (Raised Connect ''Connection refused'')
   \<and> \<not> is_setup_error (Raised Connect ''Connection refused'')"
  by (simp add: model_defs)

subsection \<open>C6: sessions with keep-alive\<close>

text \<open>
  C6. The claim fails on the code when \<^verbatim>\<open>open_sftp\<close> raises in a transfer: with
  keep-alive, one worker and one artifact, one session is opened before dispatch and none
  is closed, since the exception leaves \<^verbatim>\<open>run_tests\<close> before the loop that closes the
  pooled clients, which is not part of the \<^verbatim>\<open>finally\<close> block. A run that returns its
  report opens and closes as many sessions as it has workers (lemma
  \<open>pooled_sessions_of_a_completed_run\<close>).
\<close>

theorem pooled_session_left_open:
  "run_tests no_channel (SFTPConfig_init\<lparr>keep_alive_enabled := 1\<rparr>)
     = (Inl (Raised OpenSftp ''Channel closed''),
        \<lparr>clock = 2, files = [],
         trace = [EvUrandom 6003, EvConnect 0 (Some 20) True, EvOpenSftp 0 False],
         clients = 1\<rparr>)
   \<and> sessions_opened [EvUrandom 6003, EvConnect 0 (Some 20) True, EvOpenSftp 0 False] = 1
   \<and> sessions_closed [EvUrandom 6003, EvConnect 0 (Some 20) True, EvOpenSftp 0 False] = 0"
  by (simp add: model_defs)

subsection \<open>C7: the pause after an attempt\<close>

text \<open>
  C7. The claim fails on the code when the connect of a fresh session raises:
  \<^verbatim>\<open>sftp_operation\<close> returns its failed \<^verbatim>\<open>FileStat\<close> from the \<^verbatim>\<open>except\<close> branch, before the
  \<^verbatim>\<open>time.sleep\<close> at its end. With a sleep interval of 5 seconds, the attempt that fails in
  the upload is followed by the pause, the attempt that fails in the connect is not
  (lemma \<open>pause_after_attempt\<close> gives every case).
\<close>

theorem no_pause_after_failed_connect:
  "run_tests refused (SFTPConfig_init\<lparr>sftp_sleep_interval := 5\<rparr>)
     = (Inr [\<lparr>name = ''test_0.zip'', size_bytes = 6122, connect_time = 2, transfer_time = 0,
              success = False, error = Some ''Connection refused''\<rparr>],
        \<lparr>clock = 2, files = [],
         trace = [EvUrandom 6003, EvConnect 0 (Some 20) False], clients = 1\<rparr>)
   \<and> sleeps [EvUrandom 6003, EvConnect 0 (Some 20) False] = []
   \<and> sleeps (trace (snd (run_tests upload_fails (SFTPConfig_init\<lparr>sftp_sleep_interval := 5\<rparr>))))
       = [5]"
  by (simp add: model_defs)

subsection \<open>C8: the scratch files after a run\<close>

text \<open>
  C8. The claim fails on the code when writing an archive raises after the destination
  file was created: the path is appended to \<^verbatim>\<open>paths\<close> only after \<^verbatim>\<open>create_random_zip\<close>
  has returned, so the \<^verbatim>\<open>finally\<close> block does not remove the file, and \<^verbatim>\<open>os.rmdir\<close> then
  raises on the directory that still holds it. On every other path no file is left
  (lemma \<open>scratch_files_removed\<close>).
\<close>

theorem partial_archive_left_behind:
  "run_tests disk_full SFTPConfig_init
     = (Inl (Raised Rmdir ''Directory not empty''),
        \<lparr>clock = 0, files = [(''/tmp/tmpk3/test_0.zip'', 38)],
         trace = [EvUrandom 6003], clients = 0\<rparr>)"
  by (simp add: model_defs)

end
